theory Spec2Isabelle
  imports Complex_Main "HOL-Library.Log_Nat"
begin

section \<open>The Python binding of the Earth Mover's Distance solver (pyemd.c)\<close>

text \<open>
  The source is one C function, \<open>compute_emd\<close>, the body of the Python-callable
  \<open>emd(weight1, weight2, cost)\<close>. It checks and converts three Python objects into
  C arrays of \<open>float\<close>, calls the solver \<open>emd\<close> declared in \<open>emd.h\<close>, and
  wraps the solver's \<open>float\<close> result into a Python float. The method table and the
  module initialisation (lines 102-138) only register the function and are left out.

  Conventions of the embedding:
  \<^item> The model follows the Python 3 build (\<open>PyInt_Check\<close> is \<open>PyLong_Check\<close>) on an
    LP64 platform: \<open>Py_ssize_t\<close> has 64 bits and \<open>int\<close> has 32.
  \<^item> C integers are HOL integers with the conversions and range checks written out.
  \<^item> The C types \<open>double\<close> and \<open>float\<close> are the type parameters \<open>'d\<close> and \<open>'f\<close>;
    the conversions between them are the fields of a record \<open>cnum\<close>. No rounding
    behaviour is assumed of them.
  \<^item> The solver is the parameter \<open>emd\<close>, a function of the two signatures and the
    cost array: its source is not part of the files, and it is taken to return. Its
    last two arguments (the flow and its size) are the constant 0 of line 97.
  \<^item> Reference counts and \<open>alloca\<close> are not modelled; an array is the list of the
    elements written so far. \<open>Py_BuildValue\<close> is taken to succeed.
\<close>

subsection \<open>Python objects and the C API calls the binding makes\<close>

datatype 'd pyobj =
    PyNone
  | PyBool bool
  | PyInt int
  | PyFloat 'd
  | PyStr string
  | PyList "'d pyobj list"
  | PyTuple "'d pyobj list"

datatype pyexc = TypeError | IndexError | OverflowError

text \<open>
  The error indicator: the exception type, and the message when the binding itself
  sets it with \<open>PyErr_SetString\<close> (the texts of errors raised inside the C API are not
  modelled: \<open>None\<close>).
\<close>

datatype pyerr = PyErr pyexc "string option"

text \<open>The elements of an object that implements the sequence protocol.\<close>

fun sq_items :: "'d pyobj \<Rightarrow> 'd pyobj list option" where
  "sq_items (PyList xs) = Some xs"
| "sq_items (PyTuple xs) = Some xs"
| "sq_items (PyStr s) = Some (map (\<lambda>c. PyStr [c]) s)"
| "sq_items _ = None"

definition PySequence_Check :: "'d pyobj \<Rightarrow> bool" where
  "PySequence_Check ob = (sq_items ob \<noteq> None)"

text \<open>\<open>PySequence_Size\<close> returns a \<open>Py_ssize_t\<close>: the length, or -1 on failure.\<close>

definition PySequence_Size :: "'d pyobj \<Rightarrow> int" where
  "PySequence_Size ob = (case sq_items ob of None \<Rightarrow> - 1 | Some xs \<Rightarrow> int (length xs))"

text \<open>
  \<open>PySequence_GetItem\<close> returns a new reference, or \<open>NULL\<close> with an exception set:
  \<open>Inl\<close> is the \<open>NULL\<close> return and carries the exception.
\<close>

definition PySequence_GetItem :: "'d pyobj \<Rightarrow> int \<Rightarrow> pyerr + 'd pyobj" where
  "PySequence_GetItem ob i =
     (case sq_items ob of
        None \<Rightarrow> Inl (PyErr TypeError None)
      | Some xs \<Rightarrow>
          (let j = (if i < 0 then i + int (length xs) else i)
           in if 0 \<le> j \<and> j < int (length xs) then Inr (xs ! nat j)
              else Inl (PyErr IndexError None)))"

fun PyFloat_Check :: "'d pyobj \<Rightarrow> bool" where
  "PyFloat_Check (PyFloat d) = True"
| "PyFloat_Check _ = False"

text \<open>\<open>PyInt_Check\<close> is \<open>PyLong_Check\<close> (line 6); \<open>bool\<close> is a subclass of \<open>int\<close>.\<close>

fun PyInt_Check :: "'d pyobj \<Rightarrow> bool" where
  "PyInt_Check (PyInt k) = True"
| "PyInt_Check (PyBool b) = True"
| "PyInt_Check _ = False"

text \<open>
  The numeric conversions of the platform: \<open>long_as_double\<close> is the conversion of a
  Python integer to \<open>double\<close> (\<open>None\<close> when the integer is too large, where CPython
  raises \<open>OverflowError\<close>), \<open>minus_one\<close> the value -1.0 that \<open>PyFloat_AsDouble\<close>
  returns on failure, \<open>double_to_float\<close> the conversion of the assignments
  \<open>w1[i] = ...\<close> (a \<open>double\<close> stored into a \<open>float\<close>), \<open>float_to_double\<close> the
  promotion of \<open>distance\<close> where it is passed to \<open>Py_BuildValue("d", ...)\<close>.
\<close>

record ('d, 'f) cnum =
  long_as_double :: "int \<Rightarrow> 'd option"
  minus_one :: 'd
  double_to_float :: "'d \<Rightarrow> 'f"
  float_to_double :: "'f \<Rightarrow> 'd"

text \<open>\<open>PyFloat_AsDouble\<close>: \<open>Inl\<close> is the return of -1.0 with an exception set.\<close>

fun PyFloat_AsDouble :: "('d, 'f) cnum \<Rightarrow> 'd pyobj \<Rightarrow> pyerr + 'd" where
  "PyFloat_AsDouble cn (PyFloat d) = Inr d"
| "PyFloat_AsDouble cn (PyInt k) =
     (case long_as_double cn k of None \<Rightarrow> Inl (PyErr OverflowError None) | Some d \<Rightarrow> Inr d)"
| "PyFloat_AsDouble cn (PyBool b) =
     (case long_as_double cn (if b then 1 else 0) of
        None \<Rightarrow> Inl (PyErr OverflowError None) | Some d \<Rightarrow> Inr d)"
| "PyFloat_AsDouble cn _ = Inl (PyErr TypeError None)"

text \<open>
  \<open>PyArg_ParseTupleAndKeywords(args, keywds, "OOO", kwlist, ...)\<close>: three required
  objects, given by position or by name. \<open>keywds\<close> is the keyword dictionary as an
  association list with distinct keys.
\<close>

definition kwlist :: "string list" where
  "kwlist = [''weight1'', ''weight2'', ''cost'']"

definition parse_arg :: "'d pyobj list \<Rightarrow> (string \<times> 'd pyobj) list \<Rightarrow> nat \<Rightarrow> 'd pyobj option" where
  "parse_arg args keywds k =
     (if k < length args then Some (args ! k) else map_of keywds (kwlist ! k))"

definition PyArg_ParseTupleAndKeywords ::
  "'d pyobj list \<Rightarrow> (string \<times> 'd pyobj) list \<Rightarrow> pyerr + ('d pyobj \<times> 'd pyobj \<times> 'd pyobj)" where
  "PyArg_ParseTupleAndKeywords args keywds =
     (if length args + length keywds > 3 then Inl (PyErr TypeError None)
      else if list_ex (\<lambda>kv. fst kv \<notin> set (drop (length args) kwlist)) keywds
        then Inl (PyErr TypeError None)
      else
        (case (parse_arg args keywds 0, parse_arg args keywds 1, parse_arg args keywds 2) of
           (Some a, Some b, Some c) \<Rightarrow> Inr (a, b, c)
         | _ \<Rightarrow> Inl (PyErr TypeError None)))"

subsection \<open>The solver's interface (emd.h)\<close>

text \<open>
  Modelled from the spec: \<open>signature_t\<close> is declared in \<open>emd.h\<close>, which is not among
  the source files. The record has the fields the binding assigns: \<open>n\<close> (an \<open>int\<close>)
  and \<open>Weights\<close> (a \<open>float\<close> array); the spec's Distribution is the same pair. The
  field \<open>Features\<close> is never assigned (lines 90 and 94 are comments).
\<close>

record 'f signature =
  n :: int
  Weights :: "'f list"

type_synonym 'f solver = "'f signature \<Rightarrow> 'f signature \<Rightarrow> 'f list \<Rightarrow> 'f"

subsection \<open>compute\_emd\<close>

text \<open>
  What is observable of a run: the error indicator, and the calls of the solver
  with their arguments (the two signatures and the cost array).
\<close>

record 'f world =
  err :: "pyerr option"
  emd_calls :: "('f signature \<times> 'f signature \<times> 'f list) list"

text \<open>
  The ways a call of \<open>compute_emd\<close> ends. \<open>Returned\<close> is a C return, of \<open>NULL\<close>
  (\<open>None\<close>) or of an object. The other two are executions that leave defined
  behaviour: \<open>NullDereference\<close> is \<open>PyFloat_Check(item)\<close> evaluated with
  \<open>item == NULL\<close> (the macro reads \<open>item->ob_type\<close>); \<open>SignedOverflow\<close> is the
  \<open>int\<close> product \<open>length1 * length2\<close> out of range.
\<close>

datatype ('d, 'f) outcome =
    Returned "'d pyobj option" "'f world"
  | NullDereference "'f world"
  | SignedOverflow "'f world"

text \<open>The conversion of a \<open>Py_ssize_t\<close> to \<open>int\<close> (lines 39 and 40): the low 32 bits.\<close>

definition ssize_to_int :: "int \<Rightarrow> int" where
  "ssize_to_int x = (x + 2 ^ 31) mod 2 ^ 32 - 2 ^ 31"

definition int_range :: "int \<Rightarrow> bool" where
  "int_range x = (- (2 ^ 31) \<le> x \<and> x < 2 ^ 31)"

text \<open>
  The three element loops (lines 56-65, 67-76, 78-87) are the same loop over a
  different object and bound; \<open>fill_floats\<close> is that loop from index \<open>i\<close>, with the
  array filled so far and the error indicator. It ends with the array filled, at an
  element that is not a number, or at \<open>PyFloat_Check\<close> of a \<open>NULL\<close> item.
\<close>

datatype 'f loop_exit =
    Filled "'f list" "pyerr option"
  | NotNumber
  | NullItem pyerr

function fill_floats ::
  "('d, 'f) cnum \<Rightarrow> 'd pyobj \<Rightarrow> int \<Rightarrow> int \<Rightarrow> 'f list \<Rightarrow> pyerr option \<Rightarrow> 'f loop_exit" where
  "fill_floats cn ob bound i arr e =
     (if i < bound then
        (case PySequence_GetItem ob i of
           Inl e' \<Rightarrow> NullItem e'
         | Inr item \<Rightarrow>
             if \<not> PyFloat_Check item \<and> \<not> PyInt_Check item then NotNumber
             else
               (case PyFloat_AsDouble cn item of
                  Inl e' \<Rightarrow>
                    fill_floats cn ob bound (i + 1)
                      (arr @ [double_to_float cn (minus_one cn)]) (Some e')
                | Inr d \<Rightarrow>
                    fill_floats cn ob bound (i + 1) (arr @ [double_to_float cn d]) e))
      else Filled arr e)"
  by pat_completeness auto
termination
  by (relation "measure (\<lambda>(cn, ob, bound, i, arr, e). nat (bound - i))") auto

declare fill_floats.simps [simp del]

definition raise :: "pyexc \<Rightarrow> string \<Rightarrow> ('d, 'f) outcome" where
  "raise exc msg = Returned None \<lparr>err = Some (PyErr exc (Some msg)), emd_calls = []\<rparr>"

definition compute_emd ::
  "('d, 'f) cnum \<Rightarrow> 'f solver \<Rightarrow> 'd pyobj list \<Rightarrow> (string \<times> 'd pyobj) list \<Rightarrow> ('d, 'f) outcome" where
  "compute_emd cn emd args keywds =
     (case PyArg_ParseTupleAndKeywords args keywds of
        Inl e \<Rightarrow> Returned None \<lparr>err = Some e, emd_calls = []\<rparr>
      | Inr (weight1, weight2, cost) \<Rightarrow>
          if \<not> PySequence_Check weight1 then raise TypeError ''weight1 must be a sequence''
          else if \<not> PySequence_Check weight2 then raise TypeError ''weight2 must be a sequence''
          else
            (let length1 = ssize_to_int (PySequence_Size weight1);
                 length2 = ssize_to_int (PySequence_Size weight2)
             in
               if PySequence_Size weight1 \<noteq> length1
                 then raise TypeError ''feature1 and weight1 must be the same''
               else if PySequence_Size weight2 \<noteq> length2
                 then raise TypeError ''feature2 and weight2 must be the same''
               else if \<not> int_range (length1 * length2)
                 then SignedOverflow \<lparr>err = None, emd_calls = []\<rparr>
               else
                 (case fill_floats cn weight1 length1 0 [] None of
                    NotNumber \<Rightarrow> raise TypeError ''w1 should be a sequence of numbers''
                  | NullItem e \<Rightarrow> NullDereference \<lparr>err = Some e, emd_calls = []\<rparr>
                  | Filled w1 e1 \<Rightarrow>
                 (case fill_floats cn weight2 length2 0 [] e1 of
                    NotNumber \<Rightarrow> raise TypeError ''w2 should be a sequence of numbers''
                  | NullItem e \<Rightarrow> NullDereference \<lparr>err = Some e, emd_calls = []\<rparr>
                  | Filled w2 e2 \<Rightarrow>
                 (case fill_floats cn cost (length1 * length2) 0 [] e2 of
                    NotNumber \<Rightarrow> raise TypeError ''cost should be a sequence of numbers''
                  | NullItem e \<Rightarrow> NullDereference \<lparr>err = Some e, emd_calls = []\<rparr>
                  | Filled c e3 \<Rightarrow>
                      (let signature1 = \<lparr>n = length1, Weights = w1\<rparr>;
                           signature2 = \<lparr>n = length2, Weights = w2\<rparr>;
                           distance = emd signature1 signature2 c
                       in Returned (Some (PyFloat (float_to_double cn distance)))
                            \<lparr>err = e3, emd_calls = [(signature1, signature2, c)]\<rparr>))))))"

text \<open>The call \<open>emd(weights1, weights2, cost)\<close> with three positional arguments.\<close>

definition computeEMD ::
  "('d, 'f) cnum \<Rightarrow> 'f solver \<Rightarrow> 'd pyobj \<Rightarrow> 'd pyobj \<Rightarrow> 'd pyobj \<Rightarrow> ('d, 'f) outcome" where
  "computeEMD cn emd weights1 weights2 cost = compute_emd cn emd [weights1, weights2, cost] []"

fun world_of :: "('d, 'f) outcome \<Rightarrow> 'f world" where
  "world_of (Returned r w) = w"
| "world_of (NullDereference w) = w"
| "world_of (SignedOverflow w) = w"

definition solver_calls :: "('d, 'f) outcome \<Rightarrow> ('f signature \<times> 'f signature \<times> 'f list) list" where
  "solver_calls out = emd_calls (world_of out)"

subsection \<open>Auxiliary notions for stating the results\<close>

text \<open>The element test of the three loops, read positively.\<close>

definition is_number :: "'d pyobj \<Rightarrow> bool" where
  "is_number x = (PyFloat_Check x \<or> PyInt_Check x)"

text \<open>The \<open>float\<close> that a loop stores for a number: the narrowed \<open>double\<close>.\<close>

definition stored :: "('d, 'f) cnum \<Rightarrow> 'd pyobj \<Rightarrow> 'f" where
  "stored cn item =
     double_to_float cn (case PyFloat_AsDouble cn item of Inl e \<Rightarrow> minus_one cn | Inr d \<Rightarrow> d)"

text \<open>A number whose conversion by \<open>PyFloat_AsDouble\<close> succeeds.\<close>

definition converts :: "('d, 'f) cnum \<Rightarrow> 'd pyobj \<Rightarrow> bool" where
  "converts cn x = (case PyFloat_AsDouble cn x of Inl e \<Rightarrow> False | Inr d \<Rightarrow> True)"

text \<open>The error indicator after the conversions of a run of numbers.\<close>

fun indicator_after :: "('d, 'f) cnum \<Rightarrow> pyerr option \<Rightarrow> 'd pyobj list \<Rightarrow> pyerr option" where
  "indicator_after cn e [] = e"
| "indicator_after cn e (x # xs) =
     indicator_after cn (case PyFloat_AsDouble cn x of Inl e' \<Rightarrow> Some e' | Inr d \<Rightarrow> e) xs"

subsection \<open>The solver's contract\<close>

text \<open>
  Modelled from the spec: the solver \<open>emd\<close> (declared in \<open>emd.h\<close>, implemented
  outside the source files), by its contract, in exact arithmetic over an ordered
  ring. The spec gives its result as the total cost of a
  minimum-cost flow: every flow amount is non-negative, each supply bin's outgoing
  flow is at most its weight, each demand bin's incoming flow is at most its weight,
  the total flow equals min(total supply, total demand) (section 3); the distance is
  the sum of flow times cost (section 4.3), the cost matrix being row-major by supply
  bin; and the result is the minimum of that sum over such flows (sections 1 and 8).
\<close>

text \<open>
  Modelled from the spec: the flows the solver chooses among (section 3). \<open>f i j\<close> is
  the flow from supply bin \<open>i\<close> to demand bin \<open>j\<close>.
\<close>

definition feasible ::
  "'a::linordered_idom list \<Rightarrow> 'a list \<Rightarrow> (nat \<Rightarrow> nat \<Rightarrow> 'a) \<Rightarrow> bool" where
  "feasible w1 w2 f =
     ((\<forall>i < length w1. \<forall>j < length w2. 0 \<le> f i j)
      \<and> (\<forall>i < length w1. (\<Sum>j < length w2. f i j) \<le> w1 ! i)
      \<and> (\<forall>j < length w2. (\<Sum>i < length w1. f i j) \<le> w2 ! j)
      \<and> (\<Sum>i < length w1. \<Sum>j < length w2. f i j) = min (sum_list w1) (sum_list w2))"

text \<open>
  Modelled from the spec: the sum that the solver's result extractor forms
  (section 4.3), over the flattened cost matrix.
\<close>

definition work ::
  "'a::linordered_idom list \<Rightarrow> 'a list \<Rightarrow> 'a list \<Rightarrow> (nat \<Rightarrow> nat \<Rightarrow> 'a) \<Rightarrow> 'a" where
  "work w1 w2 c f = (\<Sum>i < length w1. \<Sum>j < length w2. f i j * c ! (i * length w2 + j))"

text \<open>
  Modelled from the spec: the value the solver returns, the least total cost of a
  feasible flow (sections 1 and 8). The solver's iteration, its tolerance and its
  \<open>ConvergenceError\<close> are not part of this contract.
\<close>

definition is_emd :: "'a::linordered_idom list \<Rightarrow> 'a list \<Rightarrow> 'a list \<Rightarrow> 'a \<Rightarrow> bool" where
  "is_emd w1 w2 c v =
     ((\<exists>f. feasible w1 w2 f \<and> work w1 w2 c f = v)
      \<and> (\<forall>g. feasible w1 w2 g \<longrightarrow> v \<le> work w1 w2 c g))"

text \<open>A solver meets the contract at one input: its result there is the distance.\<close>

definition meets_spec_at ::
  "'a::linordered_idom solver \<Rightarrow> 'a list \<Rightarrow> 'a list \<Rightarrow> 'a list \<Rightarrow> bool" where
  "meets_spec_at emd w1 w2 c =
     is_emd w1 w2 c
       (emd \<lparr>n = int (length w1), Weights = w1\<rparr> \<lparr>n = int (length w2), Weights = w2\<rparr> c)"

subsection \<open>Conversions that keep a value\<close>

text \<open>The integer \<open>k\<close> survives the conversions unchanged, as a small integer does.\<close>

definition exact_int :: "('d::linordered_idom, 'f::linordered_idom) cnum \<Rightarrow> int \<Rightarrow> bool" where
  "exact_int cn k =
     (long_as_double cn k = Some (of_int k)
      \<and> double_to_float cn (of_int k) = of_int k
      \<and> float_to_double cn (of_int k) = of_int k)"

text \<open>
  A number of Python that converts without error to a non-negative \<open>double\<close>, and
  conversions between \<open>double\<close> and \<open>float\<close> that keep non-negative values
  non-negative (as rounding does: zero is representable).
\<close>

definition nonneg_number :: "('d::linordered_idom, 'f) cnum \<Rightarrow> 'd pyobj \<Rightarrow> bool" where
  "nonneg_number cn x =
     (is_number x \<and> (case PyFloat_AsDouble cn x of Inl e \<Rightarrow> False | Inr d \<Rightarrow> 0 \<le> d))"

definition keeps_nonneg :: "('d::linordered_idom, 'f::linordered_idom) cnum \<Rightarrow> bool" where
  "keeps_nonneg cn =
     ((\<forall>d. 0 \<le> d \<longrightarrow> 0 \<le> double_to_float cn d) \<and> (\<forall>v. 0 \<le> v \<longrightarrow> 0 \<le> float_to_double cn v))"

subsection \<open>A concrete platform for the examples\<close>

text \<open>
  Binary floating point with round-to-nearest, ties-to-even, on rational values:
  \<open>round_binary p q\<close> is the nearest number with a \<open>p\<close>-bit significand. The exponent
  range is not bounded, so there are no infinities and no subnormal numbers; only
  the conversion of a Python integer reports the overflow of \<open>double\<close>: an integer
  of magnitude \<open>2^1024 - 2^970\<close> or more would round to \<open>2^1024\<close> or beyond.
\<close>

definition floor_log2 :: "rat \<Rightarrow> int" where
  "floor_log2 q =
     (let (a, b) = quotient_of q; k = bitlen a - bitlen b
      in if 2 powi k \<le> q then k else k - 1)"

definition round_half_even :: "rat \<Rightarrow> int" where
  "round_half_even x =
     (let t = \<lfloor>x\<rfloor>; r = x - of_int t
      in if r < 1 / 2 then t else if 1 / 2 < r then t + 1 else if even t then t else t + 1)"

definition round_binary :: "nat \<Rightarrow> rat \<Rightarrow> rat" where
  "round_binary p q =
     (if q = 0 then 0
      else (let u = 2 powi (floor_log2 \<bar>q\<bar> - int p + 1)
            in of_int (round_half_even (q / u)) * u))"

definition binary_num :: "(rat, rat) cnum" where
  "binary_num =
     \<lparr>long_as_double =
        (\<lambda>k. if \<bar>k\<bar> < 2 ^ 1024 - 2 ^ 970 then Some (round_binary 53 (of_int k)) else None),
      minus_one = - 1,
      double_to_float = round_binary 24,
      float_to_double = (\<lambda>v. v)\<rparr>"

section \<open>Properties of the model\<close>


subsection \<open>The C API calls and the integer conversions\<close>

lemma getitem_in_range:
  "sq_items ob = Some xs \<Longrightarrow> 0 \<le> i \<Longrightarrow> i < int (length xs) \<Longrightarrow>
   PySequence_GetItem ob i = Inr (xs ! nat i)"
  by (simp add: PySequence_GetItem_def)

lemma getitem_past_end:
  "sq_items ob = Some xs \<Longrightarrow> int (length xs) \<le> i \<Longrightarrow>
   PySequence_GetItem ob i = Inl (PyErr IndexError None)"
  by (simp add: PySequence_GetItem_def)

lemma getitem_not_sequence:
  "sq_items ob = None \<Longrightarrow> PySequence_GetItem ob i = Inl (PyErr TypeError None)"
  by (simp add: PySequence_GetItem_def)

lemma getitem_take:
  "sq_items ob = Some xs \<Longrightarrow> sq_items ob' = Some (take (nat bound) xs) \<Longrightarrow>
   0 \<le> i \<Longrightarrow> i < bound \<Longrightarrow> PySequence_GetItem ob' i = PySequence_GetItem ob i"
  by (auto simp add: PySequence_GetItem_def Let_def)

lemma size_items: "sq_items ob = Some xs \<Longrightarrow> PySequence_Size ob = int (length xs)"
  by (simp add: PySequence_Size_def)

lemma check_items: "sq_items ob = Some xs \<Longrightarrow> PySequence_Check ob"
  by (simp add: PySequence_Check_def)

lemma parse_positional:
  "PyArg_ParseTupleAndKeywords [a, b, c] [] = Inr (a, b, c)"
  by (simp add: PyArg_ParseTupleAndKeywords_def parse_arg_def)

lemma compute_emd_keywords:
  "compute_emd cn emd [a] [(''cost'', c), (''weight2'', b)] = computeEMD cn emd a b c"
  by (simp add: computeEMD_def compute_emd_def PyArg_ParseTupleAndKeywords_def parse_arg_def
      kwlist_def)

lemma ssize_to_int_small: "0 \<le> x \<Longrightarrow> x < 2 ^ 31 \<Longrightarrow> ssize_to_int x = x"
  by (simp add: ssize_to_int_def)

lemma ssize_to_int_large: "2 ^ 31 \<le> x \<Longrightarrow> x < 2 ^ 63 \<Longrightarrow> ssize_to_int x \<noteq> x"
proof -
  assume "2 ^ 31 \<le> x" "x < 2 ^ 63"
  have "(x + 2 ^ 31) mod 2 ^ 32 < 2 ^ 32" by simp
  then have "ssize_to_int x < 2 ^ 31" by (simp add: ssize_to_int_def)
  with \<open>2 ^ 31 \<le> x\<close> show ?thesis by linarith
qed

lemma product_bound: "(a::nat) * b < 2 ^ 31 \<Longrightarrow> int a * int b < 2 ^ 31"
proof -
  assume "a * b < 2 ^ 31"
  then have "int (a * b) < int (2 ^ 31)" by (simp only: of_nat_less_iff)
  then show ?thesis by simp
qed

lemma product_less: "(c::nat) < a * b \<Longrightarrow> int c < int a * int b"
proof -
  assume "c < a * b"
  then have "int c < int (a * b)" by (simp only: of_nat_less_iff)
  then show ?thesis by simp
qed

lemma factor_bound:
  "(a::nat) * b < 2 ^ 31 \<Longrightarrow> 0 < a \<Longrightarrow> 0 < b \<Longrightarrow> int a < 2 ^ 31 \<and> int b < 2 ^ 31"
proof -
  assume h: "a * b < 2 ^ 31" "0 < a" "0 < b"
  then have "a \<le> a * b" "b \<le> a * b" by (simp_all add: Suc_leI)
  then have "a < 2 ^ 31" "b < 2 ^ 31" using h(1) by linarith+
  then show ?thesis by simp
qed

subsection \<open>The element loop\<close>

lemma fill_floats_done: "\<not> i < bound \<Longrightarrow> fill_floats cn ob bound i arr e = Filled arr e"
  by (simp add: fill_floats.simps [of cn ob bound i])

lemma fill_floats_not_sequence:
  "sq_items ob = None \<Longrightarrow> i < bound \<Longrightarrow>
   fill_floats cn ob bound i arr e = NullItem (PyErr TypeError None)"
  by (simp add: fill_floats.simps [of cn ob bound i] getitem_not_sequence)

lemma fill_floats_numbers:
  "sq_items ob = Some xs \<Longrightarrow> 0 \<le> i \<Longrightarrow> i \<le> bound \<Longrightarrow> bound \<le> int (length xs) \<Longrightarrow>
   \<forall>x \<in> set (take (nat bound) xs). is_number x \<Longrightarrow>
   fill_floats cn ob bound i arr e =
     Filled (arr @ map (stored cn) (drop (nat i) (take (nat bound) xs)))
       (indicator_after cn e (drop (nat i) (take (nat bound) xs)))"
proof (induction cn ob bound i arr e rule: fill_floats.induct)
  case (1 cn ob bound i arr e)
  show ?case
  proof (cases "i < bound")
    case False
    with "1.prems" have "i = bound" by simp
    then show ?thesis by (simp add: fill_floats.simps [of cn ob bound bound])
  next
    case True
    let ?ys = "take (nat bound) xs"
    have len: "nat i < length ?ys" using True "1.prems" by simp
    have item: "PySequence_GetItem ob i = Inr (xs ! nat i)"
      using "1.prems" True by (simp add: getitem_in_range)
    have nth: "?ys ! nat i = xs ! nat i" using True "1.prems" by simp
    have num: "is_number (xs ! nat i)"
      using "1.prems"(5) len nth by (metis nth_mem)
    have dr: "drop (nat i) ?ys = (xs ! nat i) # drop (nat (i + 1)) ?ys"
    proof -
      have "nat (i + 1) = Suc (nat i)" using "1.prems"(2) by simp
      then show ?thesis using Cons_nth_drop_Suc [OF len] nth by simp
    qed
    show ?thesis
    proof (cases "PyFloat_AsDouble cn (xs ! nat i)")
      case (Inl e')
      have "fill_floats cn ob bound (i + 1) (arr @ [double_to_float cn (minus_one cn)]) (Some e') =
            Filled ((arr @ [double_to_float cn (minus_one cn)]) @ map (stored cn) (drop (nat (i + 1)) ?ys))
              (indicator_after cn (Some e') (drop (nat (i + 1)) ?ys))"
        using "1.IH"(1) [OF True item _ Inl] num "1.prems" True
        by (simp add: is_number_def)
      then show ?thesis
        using True item num Inl dr
        by (simp add: fill_floats.simps [of cn ob bound i] is_number_def stored_def)
    next
      case (Inr d)
      have "fill_floats cn ob bound (i + 1) (arr @ [double_to_float cn d]) e =
            Filled ((arr @ [double_to_float cn d]) @ map (stored cn) (drop (nat (i + 1)) ?ys))
              (indicator_after cn e (drop (nat (i + 1)) ?ys))"
        using "1.IH"(2) [OF True item _ Inr] num "1.prems" True
        by (simp add: is_number_def)
      then show ?thesis
        using True item num Inr dr
        by (simp add: fill_floats.simps [of cn ob bound i] is_number_def stored_def)
    qed
  qed
qed

lemma fill_floats_not_number:
  "sq_items ob = Some xs \<Longrightarrow> 0 \<le> i \<Longrightarrow>
   \<exists>k. nat i \<le> k \<and> k < nat bound \<and> k < length xs \<and> \<not> is_number (xs ! k) \<Longrightarrow>
   fill_floats cn ob bound i arr e = NotNumber"
proof (induction cn ob bound i arr e rule: fill_floats.induct)
  case (1 cn ob bound i arr e)
  from "1.prems"(3) obtain k where
    k: "nat i \<le> k" "k < nat bound" "k < length xs" "\<not> is_number (xs ! k)" by blast
  have lt: "i < bound" using k "1.prems"(2) by linarith
  have inr: "i < int (length xs)" using k "1.prems"(2) by linarith
  have item: "PySequence_GetItem ob i = Inr (xs ! nat i)"
    using "1.prems"(1,2) inr by (rule getitem_in_range)
  show ?case
  proof (cases "is_number (xs ! nat i)")
    case False
    then show ?thesis
      using lt item by (simp add: fill_floats.simps [of cn ob bound i] is_number_def)
  next
    case True
    then have "k \<noteq> nat i" using k(4) by auto
    then have later: "nat (i + 1) \<le> k" using k(1) "1.prems"(2) by linarith
    have ex: "\<exists>k. nat (i + 1) \<le> k \<and> k < nat bound \<and> k < length xs \<and> \<not> is_number (xs ! k)"
      using later k by blast
    have num: "\<not> (\<not> PyFloat_Check (xs ! nat i) \<and> \<not> PyInt_Check (xs ! nat i))"
      using True by (simp add: is_number_def)
    have nonneg: "0 \<le> i + 1" using "1.prems"(2) by simp
    show ?thesis
    proof (cases "PyFloat_AsDouble cn (xs ! nat i)")
      case (Inl e')
      have "fill_floats cn ob bound (i + 1) (arr @ [double_to_float cn (minus_one cn)]) (Some e') = NotNumber"
        using "1.IH"(1) [OF lt item num Inl "1.prems"(1) nonneg ex] .
      then show ?thesis
        using lt item num Inl by (simp add: fill_floats.simps [of cn ob bound i])
    next
      case (Inr d)
      have "fill_floats cn ob bound (i + 1) (arr @ [double_to_float cn d]) e = NotNumber"
        using "1.IH"(2) [OF lt item num Inr "1.prems"(1) nonneg ex] .
      then show ?thesis
        using lt item num Inr by (simp add: fill_floats.simps [of cn ob bound i])
    qed
  qed
qed

lemma fill_floats_past_end:
  "sq_items ob = Some xs \<Longrightarrow> 0 \<le> i \<Longrightarrow> i \<le> int (length xs) \<Longrightarrow> int (length xs) < bound \<Longrightarrow>
   \<forall>x \<in> set xs. is_number x \<Longrightarrow>
   fill_floats cn ob bound i arr e = NullItem (PyErr IndexError None)"
proof (induction cn ob bound i arr e rule: fill_floats.induct)
  case (1 cn ob bound i arr e)
  have lt: "i < bound" using "1.prems" by linarith
  show ?case
  proof (cases "i < int (length xs)")
    case False
    then have "PySequence_GetItem ob i = Inl (PyErr IndexError None)"
      using "1.prems"(1) by (simp add: getitem_past_end)
    then show ?thesis using lt by (simp add: fill_floats.simps [of cn ob bound i])
  next
    case True
    have item: "PySequence_GetItem ob i = Inr (xs ! nat i)"
      using "1.prems"(1,2) True by (rule getitem_in_range)
    have "is_number (xs ! nat i)" using "1.prems"(2,5) True by simp
    then have num: "\<not> (\<not> PyFloat_Check (xs ! nat i) \<and> \<not> PyInt_Check (xs ! nat i))"
      by (simp add: is_number_def)
    have nonneg: "0 \<le> i + 1" and le: "i + 1 \<le> int (length xs)"
      using "1.prems"(2) True by simp_all
    show ?thesis
    proof (cases "PyFloat_AsDouble cn (xs ! nat i)")
      case (Inl e')
      have "fill_floats cn ob bound (i + 1) (arr @ [double_to_float cn (minus_one cn)]) (Some e')
            = NullItem (PyErr IndexError None)"
        using "1.IH"(1) [OF lt item num Inl "1.prems"(1) nonneg le "1.prems"(4,5)] .
      then show ?thesis
        using lt item num Inl by (simp add: fill_floats.simps [of cn ob bound i])
    next
      case (Inr d)
      have "fill_floats cn ob bound (i + 1) (arr @ [double_to_float cn d]) e
            = NullItem (PyErr IndexError None)"
        using "1.IH"(2) [OF lt item num Inr "1.prems"(1) nonneg le "1.prems"(4,5)] .
      then show ?thesis
        using lt item num Inr by (simp add: fill_floats.simps [of cn ob bound i])
    qed
  qed
qed

lemma fill_floats_take:
  "sq_items ob = Some xs \<Longrightarrow> sq_items ob' = Some (take (nat bound) xs) \<Longrightarrow> 0 \<le> i \<Longrightarrow>
   fill_floats cn ob' bound i arr e = fill_floats cn ob bound i arr e"
proof (induction cn ob bound i arr e rule: fill_floats.induct)
  case (1 cn ob bound i arr e)
  show ?case
  proof (cases "i < bound")
    case False
    then show ?thesis by (simp add: fill_floats_done)
  next
    case True
    have same: "PySequence_GetItem ob' i = PySequence_GetItem ob i"
      using "1.prems" True by (simp add: getitem_take)
    have nonneg: "0 \<le> i + 1" using "1.prems"(3) by simp
    show ?thesis
    proof (cases "PySequence_GetItem ob i")
      case (Inl e')
      then show ?thesis
        using True same
        by (simp add: fill_floats.simps [of cn ob bound i] fill_floats.simps [of cn ob' bound i])
    next
      case (Inr item)
      show ?thesis
      proof (cases "\<not> PyFloat_Check item \<and> \<not> PyInt_Check item")
        case True
        then show ?thesis
          using \<open>i < bound\<close> same Inr
          by (simp add: fill_floats.simps [of cn ob bound i] fill_floats.simps [of cn ob' bound i])
      next
        case False
        show ?thesis
        proof (cases "PyFloat_AsDouble cn item")
          case (Inl e')
          have "fill_floats cn ob' bound (i + 1) (arr @ [double_to_float cn (minus_one cn)]) (Some e')
              = fill_floats cn ob bound (i + 1) (arr @ [double_to_float cn (minus_one cn)]) (Some e')"
            using "1.IH"(1) [OF True Inr False Inl "1.prems"(1,2) nonneg] .
          then show ?thesis
            using True same Inr False Inl
            by (auto simp add: fill_floats.simps [of cn ob bound i] fill_floats.simps [of cn ob' bound i])
        next
          case (Inr d)
          have "fill_floats cn ob' bound (i + 1) (arr @ [double_to_float cn d]) e
              = fill_floats cn ob bound (i + 1) (arr @ [double_to_float cn d]) e"
            using "1.IH"(2) [OF True \<open>PySequence_GetItem ob i = Inr item\<close> False Inr "1.prems"(1,2) nonneg] .
          then show ?thesis
            using True same \<open>PySequence_GetItem ob i = Inr item\<close> False Inr
            by (auto simp add: fill_floats.simps [of cn ob bound i] fill_floats.simps [of cn ob' bound i])
        qed
      qed
    qed
  qed
qed

lemma fill_floats_all:
  "sq_items ob = Some xs \<Longrightarrow> \<forall>x \<in> set xs. is_number x \<Longrightarrow>
   fill_floats cn ob (int (length xs)) 0 [] e =
     Filled (map (stored cn) xs) (indicator_after cn e xs)"
  using fill_floats_numbers [of ob xs 0 "int (length xs)" cn "[]" e] by simp

lemma fill_floats_prefix:
  "sq_items ob = Some xs \<Longrightarrow> k \<le> length xs \<Longrightarrow> \<forall>x \<in> set (take k xs). is_number x \<Longrightarrow>
   fill_floats cn ob (int k) 0 [] e =
     Filled (map (stored cn) (take k xs)) (indicator_after cn e (take k xs))"
  using fill_floats_numbers [of ob xs 0 "int k" cn "[]" e] by simp

lemma fill_floats_has_not_number:
  assumes "sq_items ob = Some xs" and "\<exists>x \<in> set (take k xs). \<not> is_number x"
  shows "fill_floats cn ob (int k) 0 [] e = NotNumber"
proof -
  from assms(2) obtain x where x: "x \<in> set (take k xs)" "\<not> is_number x" by blast
  then obtain j where j: "j < length (take k xs)" "take k xs ! j = x"
    by (auto simp add: in_set_conv_nth)
  then have "j < k" "j < length xs" "\<not> is_number (xs ! j)" using x(2) by simp_all
  then have "\<exists>j. nat 0 \<le> j \<and> j < nat (int k) \<and> j < length xs \<and> \<not> is_number (xs ! j)"
    by auto
  then show ?thesis using assms(1) by (intro fill_floats_not_number) simp_all
qed

lemma indicator_after_append:
  "indicator_after cn e (xs @ ys) = indicator_after cn (indicator_after cn e xs) ys"
  by (induction xs arbitrary: e) simp_all

subsection \<open>The call\<close>

text \<open>The call up to the element loops, for two weight sequences whose lengths fit.\<close>

lemma computeEMD_loops:
  assumes "sq_items weight1 = Some xs" and "sq_items weight2 = Some ys"
    and "int (length xs) < 2 ^ 31" and "int (length ys) < 2 ^ 31"
    and "int (length xs) * int (length ys) < 2 ^ 31"
  shows "computeEMD cn emd weight1 weight2 cost =
     (case fill_floats cn weight1 (int (length xs)) 0 [] None of
        NotNumber \<Rightarrow> raise TypeError ''w1 should be a sequence of numbers''
      | NullItem e \<Rightarrow> NullDereference \<lparr>err = Some e, emd_calls = []\<rparr>
      | Filled w1 e1 \<Rightarrow>
     (case fill_floats cn weight2 (int (length ys)) 0 [] e1 of
        NotNumber \<Rightarrow> raise TypeError ''w2 should be a sequence of numbers''
      | NullItem e \<Rightarrow> NullDereference \<lparr>err = Some e, emd_calls = []\<rparr>
      | Filled w2 e2 \<Rightarrow>
     (case fill_floats cn cost (int (length xs) * int (length ys)) 0 [] e2 of
        NotNumber \<Rightarrow> raise TypeError ''cost should be a sequence of numbers''
      | NullItem e \<Rightarrow> NullDereference \<lparr>err = Some e, emd_calls = []\<rparr>
      | Filled c e3 \<Rightarrow>
          Returned
            (Some (PyFloat (float_to_double cn
               (emd \<lparr>n = int (length xs), Weights = w1\<rparr> \<lparr>n = int (length ys), Weights = w2\<rparr> c))))
            \<lparr>err = e3,
             emd_calls = [(\<lparr>n = int (length xs), Weights = w1\<rparr>, \<lparr>n = int (length ys), Weights = w2\<rparr>, c)]\<rparr>)))"
proof -
  have s1: "ssize_to_int (int (length xs)) = int (length xs)"
    and s2: "ssize_to_int (int (length ys)) = int (length ys)"
    using assms(3,4) by (simp_all add: ssize_to_int_small)
  have "0 \<le> int (length xs) * int (length ys)" by simp
  then have rng: "int_range (int (length xs) * int (length ys))"
    using assms(5) unfolding int_range_def by linarith
  show ?thesis
    unfolding computeEMD_def compute_emd_def
    by (simp only: parse_positional sum.case prod.case check_items [OF assms(1)]
        check_items [OF assms(2)] size_items [OF assms(1)] size_items [OF assms(2)]
        s1 s2 rng Let_def not_True_eq_False if_False refl)
qed

lemma computeEMD_size1_fails:
  assumes "sq_items weight1 = Some xs" and "sq_items weight2 = Some ys"
    and "2 ^ 31 \<le> int (length xs)" and "int (length xs) < 2 ^ 63"
  shows "computeEMD cn emd weight1 weight2 cost =
         raise TypeError ''feature1 and weight1 must be the same''"
proof -
  have ne: "int (length xs) \<noteq> ssize_to_int (int (length xs))"
    using ssize_to_int_large [OF assms(3,4)] by simp
  show ?thesis
    unfolding computeEMD_def compute_emd_def
    by (simp add: parse_positional check_items [OF assms(1)] check_items [OF assms(2)]
        size_items [OF assms(1)] size_items [OF assms(2)] ne Let_def)
qed

lemma computeEMD_size2_fails:
  assumes "sq_items weight1 = Some xs" and "sq_items weight2 = Some ys"
    and "int (length xs) < 2 ^ 31"
    and "2 ^ 31 \<le> int (length ys)" and "int (length ys) < 2 ^ 63"
  shows "computeEMD cn emd weight1 weight2 cost =
         raise TypeError ''feature2 and weight2 must be the same''"
proof -
  have ne: "int (length ys) \<noteq> ssize_to_int (int (length ys))"
    using ssize_to_int_large [OF assms(4,5)] by simp
  have s1: "ssize_to_int (int (length xs)) = int (length xs)"
    using assms(3) by (simp add: ssize_to_int_small)
  show ?thesis
    unfolding computeEMD_def compute_emd_def
    by (simp add: parse_positional check_items [OF assms(1)] check_items [OF assms(2)]
        size_items [OF assms(1)] size_items [OF assms(2)] ne s1 Let_def)
qed

lemma computeEMD_sizes_pass:
  assumes "sq_items weight1 = Some xs" and "sq_items weight2 = Some ys"
    and "int (length xs) < 2 ^ 31" and "int (length ys) < 2 ^ 31"
  shows "computeEMD cn emd weight1 weight2 cost \<noteq> raise TypeError ''feature1 and weight1 must be the same''"
    and "computeEMD cn emd weight1 weight2 cost \<noteq> raise TypeError ''feature2 and weight2 must be the same''"
proof -
  have s1: "ssize_to_int (int (length xs)) = int (length xs)"
    and s2: "ssize_to_int (int (length ys)) = int (length ys)"
    using assms(3,4) by (simp_all add: ssize_to_int_small)
  have unf: "computeEMD cn emd weight1 weight2 cost =
     (if \<not> int_range (int (length xs) * int (length ys))
        then SignedOverflow \<lparr>err = None, emd_calls = []\<rparr>
      else
     (case fill_floats cn weight1 (int (length xs)) 0 [] None of
        NotNumber \<Rightarrow> raise TypeError ''w1 should be a sequence of numbers''
      | NullItem e \<Rightarrow> NullDereference \<lparr>err = Some e, emd_calls = []\<rparr>
      | Filled w1 e1 \<Rightarrow>
     (case fill_floats cn weight2 (int (length ys)) 0 [] e1 of
        NotNumber \<Rightarrow> raise TypeError ''w2 should be a sequence of numbers''
      | NullItem e \<Rightarrow> NullDereference \<lparr>err = Some e, emd_calls = []\<rparr>
      | Filled w2 e2 \<Rightarrow>
     (case fill_floats cn cost (int (length xs) * int (length ys)) 0 [] e2 of
        NotNumber \<Rightarrow> raise TypeError ''cost should be a sequence of numbers''
      | NullItem e \<Rightarrow> NullDereference \<lparr>err = Some e, emd_calls = []\<rparr>
      | Filled c e3 \<Rightarrow>
          Returned
            (Some (PyFloat (float_to_double cn
               (emd \<lparr>n = int (length xs), Weights = w1\<rparr> \<lparr>n = int (length ys), Weights = w2\<rparr> c))))
            \<lparr>err = e3,
             emd_calls = [(\<lparr>n = int (length xs), Weights = w1\<rparr>, \<lparr>n = int (length ys), Weights = w2\<rparr>, c)]\<rparr>))))"
    unfolding computeEMD_def compute_emd_def
    by (simp only: parse_positional sum.case prod.case check_items [OF assms(1)]
        check_items [OF assms(2)] size_items [OF assms(1)] size_items [OF assms(2)]
        s1 s2 Let_def not_True_eq_False if_False refl)
  show "computeEMD cn emd weight1 weight2 cost \<noteq> raise TypeError ''feature1 and weight1 must be the same''"
    unfolding unf by (simp add: raise_def split: loop_exit.split)
  show "computeEMD cn emd weight1 weight2 cost \<noteq> raise TypeError ''feature2 and weight2 must be the same''"
    unfolding unf by (simp add: raise_def split: loop_exit.split)
qed

text \<open>The run that reaches the solver: every element read is a number.\<close>

lemma computeEMD_numbers:
  assumes "sq_items weight1 = Some xs" and "sq_items weight2 = Some ys"
    and "sq_items cost = Some cs"
    and "length xs < 2 ^ 31" and "length ys < 2 ^ 31" and "length xs * length ys < 2 ^ 31"
    and "length xs * length ys \<le> length cs"
    and "\<forall>x \<in> set xs. is_number x" and "\<forall>y \<in> set ys. is_number y"
    and "\<forall>c \<in> set (take (length xs * length ys) cs). is_number c"
  shows "computeEMD cn emd weight1 weight2 cost =
     Returned
       (Some (PyFloat (float_to_double cn
          (emd \<lparr>n = int (length xs), Weights = map (stored cn) xs\<rparr>
               \<lparr>n = int (length ys), Weights = map (stored cn) ys\<rparr>
               (map (stored cn) (take (length xs * length ys) cs))))))
       \<lparr>err = indicator_after cn None (xs @ ys @ take (length xs * length ys) cs),
        emd_calls =
          [(\<lparr>n = int (length xs), Weights = map (stored cn) xs\<rparr>,
            \<lparr>n = int (length ys), Weights = map (stored cn) ys\<rparr>,
            map (stored cn) (take (length xs * length ys) cs))]\<rparr>"
proof -
  have small: "int (length xs) < 2 ^ 31" "int (length ys) < 2 ^ 31"
    using assms(4,5) by simp_all
  have prod: "int (length xs) * int (length ys) < 2 ^ 31"
    using assms(6) by (rule product_bound)
  have l1: "fill_floats cn weight1 (int (length xs)) 0 [] e =
            Filled (map (stored cn) xs) (indicator_after cn e xs)" for e
    using assms(1,8) by (rule fill_floats_all)
  have l2: "fill_floats cn weight2 (int (length ys)) 0 [] e =
            Filled (map (stored cn) ys) (indicator_after cn e ys)" for e
    using assms(2,9) by (rule fill_floats_all)
  have "fill_floats cn cost (int (length xs * length ys)) 0 [] e =
            Filled (map (stored cn) (take (length xs * length ys) cs))
              (indicator_after cn e (take (length xs * length ys) cs))" for e
    using assms(3,7,10) by (rule fill_floats_prefix)
  then have l3: "fill_floats cn cost (int (length xs) * int (length ys)) 0 [] e =
            Filled (map (stored cn) (take (length xs * length ys) cs))
              (indicator_after cn e (take (length xs * length ys) cs))" for e
    by simp
  show ?thesis
    unfolding computeEMD_loops [OF assms(1,2) small prod]
    by (simp add: l1 l2 l3 indicator_after_append)
qed

text \<open>The run with an empty weight sequence: the third loop has bound 0.\<close>

lemma computeEMD_empty:
  assumes "sq_items weight1 = Some xs" and "sq_items weight2 = Some ys"
    and "xs = [] \<or> ys = []"
    and "length xs < 2 ^ 31" and "length ys < 2 ^ 31"
    and "\<forall>x \<in> set xs. is_number x" and "\<forall>y \<in> set ys. is_number y"
  shows "computeEMD cn emd weight1 weight2 cost =
     Returned
       (Some (PyFloat (float_to_double cn
          (emd \<lparr>n = int (length xs), Weights = map (stored cn) xs\<rparr>
               \<lparr>n = int (length ys), Weights = map (stored cn) ys\<rparr> []))))
       \<lparr>err = indicator_after cn None (xs @ ys),
        emd_calls =
          [(\<lparr>n = int (length xs), Weights = map (stored cn) xs\<rparr>,
            \<lparr>n = int (length ys), Weights = map (stored cn) ys\<rparr>, [])]\<rparr>"
proof -
  have small: "int (length xs) < 2 ^ 31" "int (length ys) < 2 ^ 31"
    using assms(4,5) by simp_all
  have zero: "int (length xs) * int (length ys) = 0"
    using assms(3) by auto
  have prod: "int (length xs) * int (length ys) < 2 ^ 31" unfolding zero by simp
  have l1: "fill_floats cn weight1 (int (length xs)) 0 [] e =
            Filled (map (stored cn) xs) (indicator_after cn e xs)" for e
    using assms(1,6) by (rule fill_floats_all)
  have l2: "fill_floats cn weight2 (int (length ys)) 0 [] e =
            Filled (map (stored cn) ys) (indicator_after cn e ys)" for e
    using assms(2,7) by (rule fill_floats_all)
  have l3: "fill_floats cn cost 0 0 [] e = Filled [] e" for e
    by (simp add: fill_floats_done)
  show ?thesis
    unfolding computeEMD_loops [OF assms(1,2) small prod] zero
    by (simp add: l1 l2 l3 indicator_after_append)
qed

lemma indicator_converts:
  "\<forall>x \<in> set zs. converts cn x \<Longrightarrow> indicator_after cn e zs = e"
  by (induction zs arbitrary: e) (auto simp add: converts_def split: sum.splits)

subsection \<open>The solver's contract\<close>

lemma cell_index: "i < a \<Longrightarrow> j < b \<Longrightarrow> i * b + j < a * (b::nat)"
proof -
  assume "i < a" "j < b"
  then have "i * b + j < i * b + b" by simp
  also have "\<dots> = (i + 1) * b" by simp
  also have "\<dots> \<le> a * b" using \<open>i < a\<close> by (intro mult_le_mono1) simp
  finally show ?thesis .
qed

lemma work_nonneg:
  assumes "feasible w1 w2 f" and "\<forall>x \<in> set c. 0 \<le> x"
    and "length c = length w1 * length w2"
  shows "0 \<le> work w1 w2 c f"
  unfolding work_def
proof (intro sum_nonneg mult_nonneg_nonneg)
  fix i j assume "i \<in> {..<length w1}" "j \<in> {..<length w2}"
  then have ij: "i < length w1" "j < length w2" by simp_all
  then show "0 \<le> f i j" using assms(1) by (simp add: feasible_def)
  have "i * length w2 + j < length c" using ij assms(3) by (simp add: cell_index)
  then show "0 \<le> c ! (i * length w2 + j)" using assms(2) by simp
qed

lemma is_emd_nonneg:
  "is_emd w1 w2 c v \<Longrightarrow> \<forall>x \<in> set c. 0 \<le> x \<Longrightarrow> length c = length w1 * length w2 \<Longrightarrow> 0 \<le> v"
  unfolding is_emd_def using work_nonneg by blast

lemma feasible_1x1:
  "0 \<le> a \<Longrightarrow> 0 \<le> b \<Longrightarrow> feasible [a] [b] f = (f 0 0 = min a b)"
  by (auto simp add: feasible_def)

lemma is_emd_1x1:
  assumes "0 \<le> a" and "0 \<le> b"
  shows "is_emd [a] [b] [c] v = (v = min a b * c)"
proof -
  have w: "work [a] [b] [c] f = f 0 0 * c" for f
    by (simp add: work_def)
  show ?thesis
    unfolding is_emd_def feasible_1x1 [OF assms] w
    by (auto intro: exI [of _ "\<lambda>i j. min a b"])
qed

lemma feasible_cross:
  "feasible [2, 0] [0, 2] f = (f 0 0 = 0 \<and> f 0 1 = 2 \<and> f 1 0 = 0 \<and> f 1 1 = (0::'a::linordered_idom))"
proof -
  have two: "{..<2::nat} = {0, 1}" by auto
  have all2: "(\<forall>i<Suc (Suc 0). P i) = (P 0 \<and> P (Suc 0))" for P
    by (auto simp add: less_Suc_eq)
  show ?thesis
    unfolding feasible_def by (simp add: two all2) linarith
qed

lemma is_emd_cross:
  "is_emd [2, 0] [0, 2] [0, 1, 1, 0] v = (v = (2::'a::linordered_idom))"
proof -
  have two: "{..<2::nat} = {0, 1}" by auto
  have w: "work [2, 0] [0, 2] [0, 1, 1, 0] f = f 0 1 + f 1 0" for f :: "nat \<Rightarrow> nat \<Rightarrow> 'a"
    by (simp add: work_def two)
  have ex: "feasible [2, 0] [0, 2] (\<lambda>i j. if i = 0 \<and> j = 1 then 2 else (0::'a))"
    by (simp add: feasible_cross)
  show ?thesis
  proof
    assume "is_emd [2, 0] [0, 2] [0, 1, 1, 0] v"
    then obtain f where "feasible [2, 0] [0, 2] f" "work [2, 0] [0, 2] [0, 1, 1, 0] f = v"
      unfolding is_emd_def by blast
    then show "v = 2" by (simp add: feasible_cross w)
  next
    assume v: "v = 2"
    have "work [2, 0] [0, 2] [0, 1, 1, 0] (\<lambda>i j. if i = 0 \<and> j = 1 then 2 else (0::'a)) = v"
      by (simp add: w v)
    moreover have "v \<le> work [2, 0] [0, 2] [0, 1, 1, 0] g" if "feasible [2, 0] [0, 2] g" for g
      using that by (simp add: feasible_cross w v)
    ultimately show "is_emd [2, 0] [0, 2] [0, 1, 1, 0] v"
      unfolding is_emd_def using ex by blast
  qed
qed

subsection \<open>The conversions\<close>

lemma stored_exact: "exact_int cn k \<Longrightarrow> stored cn (PyInt k) = of_int k"
  by (simp add: exact_int_def stored_def)

lemma stored_nonneg:
  "keeps_nonneg cn \<Longrightarrow> nonneg_number cn x \<Longrightarrow> 0 \<le> stored cn x"
  by (auto simp add: keeps_nonneg_def nonneg_number_def stored_def split: sum.splits)

lemma indicator_nonneg:
  "\<forall>x \<in> set zs. nonneg_number cn x \<Longrightarrow> indicator_after cn e zs = e"
  by (induction zs arbitrary: e) (auto simp add: nonneg_number_def split: sum.splits)

lemma round_half_even_nonneg: "0 \<le> x \<Longrightarrow> 0 \<le> round_half_even x"
  by (auto simp add: round_half_even_def Let_def)

lemma round_binary_nonneg: "0 \<le> q \<Longrightarrow> 0 \<le> round_binary p q"
proof (cases "q = 0")
  case True
  then show ?thesis by (simp add: round_binary_def)
next
  case False
  assume q: "0 \<le> q"
  define u :: rat where "u = 2 powi (floor_log2 \<bar>q\<bar> - int p + 1)"
  have u: "0 < u" by (simp add: u_def)
  then have "0 \<le> q / u" using q by simp
  then have "0 \<le> round_half_even (q / u)" by (rule round_half_even_nonneg)
  then have "0 \<le> rat_of_int (round_half_even (q / u)) * u" using u by simp
  then show ?thesis using False by (simp add: round_binary_def Let_def u_def)
qed

lemma keeps_nonneg_binary: "keeps_nonneg binary_num"
  by (simp add: keeps_nonneg_def binary_num_def round_binary_nonneg)

lemma exact_binary_0: "exact_int binary_num 0"
  by code_simp

lemma exact_binary_1: "exact_int binary_num 1"
  by code_simp

lemma exact_binary_2: "exact_int binary_num 2"
  by code_simp

lemma exact_binary_5: "exact_int binary_num 5"
  by code_simp

lemma stored_binary_examples:
  "stored binary_num (PyFloat (1073741825 / 1073741824)) = 1"
  "stored binary_num (PyFloat 1) = 1"
  "stored binary_num (PyFloat (3602879701896397 / 36028797018963968)) = 13421773 / 134217728"
  by code_simp+

section \<open>The claims\<close>

subsection \<open>Validation of the arguments\<close>

text \<open>
  Claim C1, as amended. The length of \<open>cost\<close> is never compared with
  \<open>length1 * length2\<close>. For three sequences: when \<open>cost\<close> has fewer elements than
  \<open>length1 * length2\<close> (a product that fits an \<open>int\<close>), the solver is not called;
  when \<open>cost\<close> has more, no error is raised for it: the surplus is never read and
  the call ends as it does on the first \<open>length1 * length2\<close> elements.
\<close>

theorem cost_length_unchecked:
  assumes "sq_items weight1 = Some xs" and "sq_items weight2 = Some ys"
    and "sq_items cost = Some cs"
  shows "(length cs < length xs * length ys \<and> length xs * length ys < 2 ^ 31 \<longrightarrow>
            solver_calls (computeEMD cn emd weight1 weight2 cost) = [])
       \<and> (length xs * length ys < length cs \<longrightarrow>
            computeEMD cn emd weight1 weight2 cost =
            computeEMD cn emd weight1 weight2 (PyList (take (length xs * length ys) cs)))"
proof (intro conjI impI)
  assume a: "length cs < length xs * length ys \<and> length xs * length ys < 2 ^ 31"
  then have a1: "length cs < length xs * length ys" and a2: "length xs * length ys < 2 ^ 31"
    by blast+
  have pos: "0 < length xs" "0 < length ys" using a1 by auto
  have small: "int (length xs) < 2 ^ 31" "int (length ys) < 2 ^ 31"
    using factor_bound [OF a2 pos] by blast+
  have prod: "int (length xs) * int (length ys) < 2 ^ 31"
    using a2 by (rule product_bound)
  have short: "int (length cs) < int (length xs) * int (length ys)"
    using a1 by (rule product_less)
  note unf = computeEMD_loops [OF assms(1,2) small prod]
  show "solver_calls (computeEMD cn emd weight1 weight2 cost) = []"
  proof (cases "fill_floats cn weight1 (int (length xs)) 0 [] None")
    case NotNumber
    then show ?thesis unfolding unf by (simp add: solver_calls_def raise_def)
  next
    case (NullItem e)
    then show ?thesis unfolding unf by (simp add: solver_calls_def)
  next
    case f1: (Filled w1 e1)
    show ?thesis
    proof (cases "fill_floats cn weight2 (int (length ys)) 0 [] e1")
      case NotNumber
      then show ?thesis unfolding unf using f1 by (simp add: solver_calls_def raise_def)
    next
      case (NullItem e)
      then show ?thesis unfolding unf using f1 by (simp add: solver_calls_def)
    next
      case f2: (Filled w2 e2)
      have "fill_floats cn cost (int (length xs) * int (length ys)) 0 [] e2 = NotNumber
          \<or> fill_floats cn cost (int (length xs) * int (length ys)) 0 [] e2
              = NullItem (PyErr IndexError None)"
      proof (cases "\<forall>x \<in> set cs. is_number x")
        case True
        have "fill_floats cn cost (int (length xs) * int (length ys)) 0 [] e2
              = NullItem (PyErr IndexError None)"
          using assms(3) _ _ short True by (rule fill_floats_past_end) simp_all
        then show ?thesis by simp
      next
        case False
        then have "\<exists>x \<in> set (take (length xs * length ys) cs). \<not> is_number x"
          using a1 by simp
        then have "fill_floats cn cost (int (length xs * length ys)) 0 [] e2 = NotNumber"
          using assms(3) by (intro fill_floats_has_not_number)
        then show ?thesis by simp
      qed
      then show ?thesis
        unfolding unf using f1 f2 by (auto simp add: solver_calls_def raise_def)
    qed
  qed
next
  assume long: "length xs * length ys < length cs"
  define k where "k = int (length xs) * int (length ys)"
  have tk: "sq_items (PyList (take (length xs * length ys) cs) :: 'a pyobj)
            = Some (take (nat k) cs)"
    by (simp add: k_def nat_mult_distrib)
  have same: "fill_floats cn (PyList (take (length xs * length ys) cs)) k 0 [] e
              = fill_floats cn cost k 0 [] e" for e
    using assms(3) tk by (rule fill_floats_take) simp
  show "computeEMD cn emd weight1 weight2 cost =
        computeEMD cn emd weight1 weight2 (PyList (take (length xs * length ys) cs))"
    unfolding computeEMD_def compute_emd_def
    by (simp add: parse_positional Let_def size_items [OF assms(1)] size_items [OF assms(2)]
        ssize_to_int_small same [unfolded k_def] split: loop_exit.split)
qed

theorem cost_length_unchecked_witness:
  "\<forall>(cn :: ('d, 'f) cnum) emd.
     solver_calls
       (computeEMD cn emd (PyList [PyInt 1, PyInt 2]) (PyList [PyInt 3]) (PyList [PyInt 5])) = []
   \<and> computeEMD cn emd (PyList [PyInt 1]) (PyList [PyInt 1]) (PyList [PyInt 5, PyInt 7]) =
     computeEMD cn emd (PyList [PyInt 1]) (PyList [PyInt 1]) (PyList [PyInt 5])"
proof (intro allI conjI)
  fix cn :: "('d, 'f) cnum" and emd :: "'f solver"
  show "solver_calls
       (computeEMD cn emd (PyList [PyInt 1, PyInt 2]) (PyList [PyInt 3]) (PyList [PyInt 5])) = []"
    using cost_length_unchecked [of "PyList [PyInt 1, PyInt 2]" "[PyInt 1, PyInt 2]"
        "PyList [PyInt 3]" "[PyInt 3]" "PyList [PyInt 5]" "[PyInt 5]" cn emd]
    by simp
  show "computeEMD cn emd (PyList [PyInt 1]) (PyList [PyInt 1]) (PyList [PyInt 5, PyInt 7]) =
     computeEMD cn emd (PyList [PyInt 1]) (PyList [PyInt 1]) (PyList [PyInt 5])"
    using cost_length_unchecked [of "PyList [PyInt 1]" "[PyInt 1]"
        "PyList [PyInt 1]" "[PyInt 1]" "PyList [PyInt 5, PyInt 7]" "[PyInt 5, PyInt 7]" cn emd]
    by simp
qed

theorem cost_length_unchecked_counterexample:
  "\<forall>(cn :: ('d, 'f) cnum) emd.
     solver_calls
       (computeEMD cn emd (PyList [PyInt 1]) (PyList [PyInt 1]) (PyList [PyInt 5, PyInt 7])) =
       [(\<lparr>n = 1, Weights = [stored cn (PyInt 1)]\<rparr>,
         \<lparr>n = 1, Weights = [stored cn (PyInt 1)]\<rparr>,
         [stored cn (PyInt 5)])]"
proof (intro allI)
  fix cn :: "('d, 'f) cnum" and emd :: "'f solver"
  show "solver_calls
       (computeEMD cn emd (PyList [PyInt 1]) (PyList [PyInt 1]) (PyList [PyInt 5, PyInt 7])) =
       [(\<lparr>n = 1, Weights = [stored cn (PyInt 1)]\<rparr>,
         \<lparr>n = 1, Weights = [stored cn (PyInt 1)]\<rparr>,
         [stored cn (PyInt 5)])]"
    using computeEMD_numbers [of "PyList [PyInt 1]" "[PyInt 1]" "PyList [PyInt 1]" "[PyInt 1]"
        "PyList [PyInt 5, PyInt 7]" "[PyInt 5, PyInt 7]" cn emd]
    by (simp add: is_number_def solver_calls_def)
qed

text \<open>
  Claim C2, as amended. There is no check for an empty weight sequence. When one of
  the two weight sequences is empty, both have fewer than \<open>2^31\<close> elements and hold
  only numbers that \<open>PyFloat_AsDouble\<close> converts, no error is raised: \<open>cost\<close> is not
  read at all (it may be any object), the solver is called once, with the two
  signatures and an empty cost array, and what it returns is returned as a Python
  float, the error indicator clear.
\<close>

theorem empty_weights_reach_solver:
  assumes "sq_items weight1 = Some xs" and "sq_items weight2 = Some ys"
    and "xs = [] \<or> ys = []"
    and "length xs < 2 ^ 31" and "length ys < 2 ^ 31"
    and "\<forall>x \<in> set (xs @ ys). is_number x \<and> converts cn x"
  shows "computeEMD cn emd weight1 weight2 cost =
     Returned
       (Some (PyFloat (float_to_double cn
          (emd \<lparr>n = int (length xs), Weights = map (stored cn) xs\<rparr>
               \<lparr>n = int (length ys), Weights = map (stored cn) ys\<rparr> []))))
       \<lparr>err = None,
        emd_calls =
          [(\<lparr>n = int (length xs), Weights = map (stored cn) xs\<rparr>,
            \<lparr>n = int (length ys), Weights = map (stored cn) ys\<rparr>, [])]\<rparr>"
proof -
  have nums: "\<forall>x \<in> set xs. is_number x" "\<forall>y \<in> set ys. is_number y"
    using assms(6) by simp_all
  have "indicator_after cn None (xs @ ys) = None"
    using assms(6) by (intro indicator_converts) blast
  then show ?thesis
    using computeEMD_empty [OF assms(1,2,3,4,5) nums, of cn emd cost] by simp
qed

theorem empty_weights_reach_solver_witness:
  "\<forall>(cn :: ('d, 'f) cnum) emd d1 d2.
     computeEMD cn emd (PyList []) (PyList [PyFloat d1, PyFloat d2]) PyNone =
     Returned
       (Some (PyFloat (float_to_double cn
          (emd \<lparr>n = 0, Weights = []\<rparr>
               \<lparr>n = 2, Weights = [double_to_float cn d1, double_to_float cn d2]\<rparr> []))))
       \<lparr>err = None,
        emd_calls =
          [(\<lparr>n = 0, Weights = []\<rparr>,
            \<lparr>n = 2, Weights = [double_to_float cn d1, double_to_float cn d2]\<rparr>, [])]\<rparr>"
proof (intro allI)
  fix cn :: "('d, 'f) cnum" and emd :: "'f solver" and d1 d2 :: 'd
  show "computeEMD cn emd (PyList []) (PyList [PyFloat d1, PyFloat d2]) PyNone =
     Returned
       (Some (PyFloat (float_to_double cn
          (emd \<lparr>n = 0, Weights = []\<rparr>
               \<lparr>n = 2, Weights = [double_to_float cn d1, double_to_float cn d2]\<rparr> []))))
       \<lparr>err = None,
        emd_calls =
          [(\<lparr>n = 0, Weights = []\<rparr>,
            \<lparr>n = 2, Weights = [double_to_float cn d1, double_to_float cn d2]\<rparr>, [])]\<rparr>"
    using empty_weights_reach_solver [of "PyList []" "[]" "PyList [PyFloat d1, PyFloat d2]"
        "[PyFloat d1, PyFloat d2]" cn emd PyNone]
    by (simp add: is_number_def converts_def stored_def)
qed

theorem empty_weights_counterexample:
  "\<forall>(cn :: ('d, 'f) cnum) emd.
     computeEMD cn emd (PyList []) (PyList []) (PyList []) =
     Returned
       (Some (PyFloat (float_to_double cn
          (emd \<lparr>n = 0, Weights = []\<rparr> \<lparr>n = 0, Weights = []\<rparr> []))))
       \<lparr>err = None,
        emd_calls = [(\<lparr>n = 0, Weights = []\<rparr>, \<lparr>n = 0, Weights = []\<rparr>, [])]\<rparr>"
proof (intro allI)
  fix cn :: "('d, 'f) cnum" and emd :: "'f solver"
  show "computeEMD cn emd (PyList []) (PyList []) (PyList []) =
     Returned
       (Some (PyFloat (float_to_double cn
          (emd \<lparr>n = 0, Weights = []\<rparr> \<lparr>n = 0, Weights = []\<rparr> []))))
       \<lparr>err = None,
        emd_calls = [(\<lparr>n = 0, Weights = []\<rparr>, \<lparr>n = 0, Weights = []\<rparr>, [])]\<rparr>"
    using computeEMD_numbers [of "PyList []" "[]" "PyList []" "[]" "PyList []" "[]" cn emd]
    by simp
qed

text \<open>
  Claim C3. \<open>weight1\<close> and \<open>weight2\<close> are tested with \<open>PySequence_Check\<close> (an object
  that fails it ends the call with a TypeError); \<open>cost\<close> is given neither that test
  nor a length check. Whenever the weights are two non-empty sequences of numbers (their
  product of lengths fitting an \<open>int\<close>) and \<open>cost\<close> is not a sequence, or is a sequence
  of numbers with fewer than \<open>length1 * length2\<close> elements, the third loop reaches an
  index at which \<open>PySequence_GetItem(cost, i)\<close> returns \<open>NULL\<close>, and the run ends in
  \<open>PyFloat_Check\<close> applied to that \<open>NULL\<close> item, before any call of the solver.
\<close>

theorem cost_item_null_reaches_check:
  assumes "sq_items weight1 = Some xs" and "sq_items weight2 = Some ys"
    and "0 < length xs * length ys" and "length xs * length ys < 2 ^ 31"
    and "\<forall>x \<in> set xs. is_number x" and "\<forall>y \<in> set ys. is_number y"
    and "case sq_items cost of
           None \<Rightarrow> True
         | Some cs \<Rightarrow> length cs < length xs * length ys \<and> (\<forall>c \<in> set cs. is_number c)"
  shows "(\<exists>i e. 0 \<le> i \<and> i < int (length xs) * int (length ys)
           \<and> PySequence_GetItem cost i = Inl e
           \<and> computeEMD cn emd weight1 weight2 cost =
               NullDereference \<lparr>err = Some e, emd_calls = []\<rparr>)
       \<and> (\<forall>ob. \<not> PySequence_Check ob \<longrightarrow>
             computeEMD cn emd ob weight2 cost = raise TypeError ''weight1 must be a sequence''
           \<and> computeEMD cn emd weight1 ob cost = raise TypeError ''weight2 must be a sequence'')"
proof (intro conjI allI impI)
  fix ob :: "'a pyobj"
  assume "\<not> PySequence_Check ob"
  then show "computeEMD cn emd ob weight2 cost = raise TypeError ''weight1 must be a sequence''"
    by (simp add: computeEMD_def compute_emd_def parse_positional)
next
  fix ob :: "'a pyobj"
  assume "\<not> PySequence_Check ob"
  then show "computeEMD cn emd weight1 ob cost = raise TypeError ''weight2 must be a sequence''"
    using check_items [OF assms(1)]
    by (simp add: computeEMD_def compute_emd_def parse_positional)
next
  have pos: "0 < length xs" "0 < length ys" using assms(3) by auto
  have small: "int (length xs) < 2 ^ 31" "int (length ys) < 2 ^ 31"
    using factor_bound [OF assms(4) pos] by blast+
  have prod: "int (length xs) * int (length ys) < 2 ^ 31"
    using assms(4) by (rule product_bound)
  have ppos: "0 < int (length xs) * int (length ys)"
    using pos by simp
  have l1: "fill_floats cn weight1 (int (length xs)) 0 [] e =
            Filled (map (stored cn) xs) (indicator_after cn e xs)" for e
    using assms(1,5) by (rule fill_floats_all)
  have l2: "fill_floats cn weight2 (int (length ys)) 0 [] e =
            Filled (map (stored cn) ys) (indicator_after cn e ys)" for e
    using assms(2,6) by (rule fill_floats_all)
  note unf = computeEMD_loops [OF assms(1,2) small prod]
  show "\<exists>i e. 0 \<le> i \<and> i < int (length xs) * int (length ys)
           \<and> PySequence_GetItem cost i = Inl e
           \<and> computeEMD cn emd weight1 weight2 cost =
               NullDereference \<lparr>err = Some e, emd_calls = []\<rparr>"
  proof (cases "sq_items cost")
    case None
    have item: "PySequence_GetItem cost 0 = Inl (PyErr TypeError None)"
      using None by (rule getitem_not_sequence)
    have l3: "fill_floats cn cost (int (length xs) * int (length ys)) 0 [] e
              = NullItem (PyErr TypeError None)" for e
      using None ppos by (rule fill_floats_not_sequence)
    have "computeEMD cn emd weight1 weight2 cost =
          NullDereference \<lparr>err = Some (PyErr TypeError None), emd_calls = []\<rparr>"
      unfolding unf by (simp add: l1 l2 l3)
    then show ?thesis using item ppos by (intro exI [of _ 0]) simp
  next
    case (Some cs)
    then have short: "length cs < length xs * length ys" and nums: "\<forall>c \<in> set cs. is_number c"
      using assms(7) by simp_all
    have ishort: "int (length cs) < int (length xs) * int (length ys)"
      using short by (rule product_less)
    have item: "PySequence_GetItem cost (int (length cs)) = Inl (PyErr IndexError None)"
      using Some by (simp add: getitem_past_end)
    have l3: "fill_floats cn cost (int (length xs) * int (length ys)) 0 [] e
              = NullItem (PyErr IndexError None)" for e
      using Some _ _ ishort nums by (rule fill_floats_past_end) simp_all
    have "computeEMD cn emd weight1 weight2 cost =
          NullDereference \<lparr>err = Some (PyErr IndexError None), emd_calls = []\<rparr>"
      unfolding unf by (simp add: l1 l2 l3)
    then show ?thesis using item ishort by (intro exI [of _ "int (length cs)"]) simp
  qed
qed

theorem cost_item_null_reaches_check_witness:
  "\<forall>(cn :: ('d, 'f) cnum) emd.
     (\<exists>i e. 0 \<le> i \<and> i < 2 \<and> PySequence_GetItem (PyNone :: 'd pyobj) i = Inl e
        \<and> computeEMD cn emd (PyList [PyInt 1, PyBool True]) (PyList [PyInt 3]) PyNone =
            NullDereference \<lparr>err = Some e, emd_calls = []\<rparr>)
   \<and> (\<exists>i e. 0 \<le> i \<and> i < 2 \<and> PySequence_GetItem (PyList [PyInt 5] :: 'd pyobj) i = Inl e
        \<and> computeEMD cn emd (PyList [PyInt 1, PyInt 2]) (PyList [PyInt 3]) (PyList [PyInt 5]) =
            NullDereference \<lparr>err = Some e, emd_calls = []\<rparr>)
   \<and> computeEMD cn emd (PyInt 7) (PyList [PyInt 3]) (PyList [PyInt 5]) =
        Returned None
          \<lparr>err = Some (PyErr TypeError (Some ''weight1 must be a sequence'')), emd_calls = []\<rparr>
   \<and> computeEMD cn emd (PyList [PyInt 1, PyInt 2]) PyNone (PyList [PyInt 5]) =
        Returned None
          \<lparr>err = Some (PyErr TypeError (Some ''weight2 must be a sequence'')), emd_calls = []\<rparr>"
proof (intro allI conjI)
  fix cn :: "('d, 'f) cnum" and emd :: "'f solver"
  show "\<exists>i e. 0 \<le> i \<and> i < 2 \<and> PySequence_GetItem (PyNone :: 'd pyobj) i = Inl e
        \<and> computeEMD cn emd (PyList [PyInt 1, PyBool True]) (PyList [PyInt 3]) PyNone =
            NullDereference \<lparr>err = Some e, emd_calls = []\<rparr>"
    using cost_item_null_reaches_check [of "PyList [PyInt 1, PyBool True]" "[PyInt 1, PyBool True]"
        "PyList [PyInt 3]" "[PyInt 3]" PyNone cn emd]
    by (simp add: is_number_def)
  note inst = cost_item_null_reaches_check [of "PyList [PyInt 1, PyInt 2]" "[PyInt 1, PyInt 2]"
        "PyList [PyInt 3]" "[PyInt 3]" "PyList [PyInt 5]" cn emd]
  show "\<exists>i e. 0 \<le> i \<and> i < 2 \<and> PySequence_GetItem (PyList [PyInt 5] :: 'd pyobj) i = Inl e
        \<and> computeEMD cn emd (PyList [PyInt 1, PyInt 2]) (PyList [PyInt 3]) (PyList [PyInt 5]) =
            NullDereference \<lparr>err = Some e, emd_calls = []\<rparr>"
    using inst by (simp add: is_number_def)
  have seq: "\<not> PySequence_Check (PyInt 7 :: 'd pyobj)" "\<not> PySequence_Check (PyNone :: 'd pyobj)"
    by (simp_all add: PySequence_Check_def)
  have "computeEMD cn emd (PyInt 7) (PyList [PyInt 3]) (PyList [PyInt 5]) =
        raise TypeError ''weight1 must be a sequence''"
    using inst seq by (simp add: is_number_def)
  then show "computeEMD cn emd (PyInt 7) (PyList [PyInt 3]) (PyList [PyInt 5]) =
        Returned None
          \<lparr>err = Some (PyErr TypeError (Some ''weight1 must be a sequence'')), emd_calls = []\<rparr>"
    by (simp add: raise_def)
  have "computeEMD cn emd (PyList [PyInt 1, PyInt 2]) PyNone (PyList [PyInt 5]) =
        raise TypeError ''weight2 must be a sequence''"
    using inst seq by (simp add: is_number_def)
  then show "computeEMD cn emd (PyList [PyInt 1, PyInt 2]) PyNone (PyList [PyInt 5]) =
        Returned None
          \<lparr>err = Some (PyErr TypeError (Some ''weight2 must be a sequence'')), emd_calls = []\<rparr>"
    by (simp add: raise_def)
qed

text \<open>
  Claim C4, as amended. The loops read \<open>weight1\<close>, then \<open>weight2\<close>, then the first
  \<open>length1 * length2\<close> elements of \<open>cost\<close>. For weight sequences that reach the loops
  (lengths and their product fitting an \<open>int\<close>): an element of \<open>weight1\<close> that is
  neither an integer nor a float ends the call with the TypeError "w1 should be a
  sequence of numbers"; with \<open>weight1\<close> all numbers, such an element of \<open>weight2\<close> ends
  it with "w2 should be a sequence of numbers"; with both all numbers, such an element
  among the first \<open>length1 * length2\<close> elements of \<open>cost\<close> ends it with "cost should be
  a sequence of numbers". In each case the solver is not called. Elements of \<open>cost\<close>
  past \<open>length1 * length2\<close> are never tested.
\<close>

theorem not_number_raises_type_error:
  assumes "sq_items weight1 = Some xs" and "sq_items weight2 = Some ys"
    and "length xs < 2 ^ 31" and "length ys < 2 ^ 31" and "length xs * length ys < 2 ^ 31"
  shows "((\<exists>x \<in> set xs. \<not> is_number x) \<longrightarrow>
            computeEMD cn emd weight1 weight2 cost =
              Returned None
                \<lparr>err = Some (PyErr TypeError (Some ''w1 should be a sequence of numbers'')),
                 emd_calls = []\<rparr>)
       \<and> ((\<forall>x \<in> set xs. is_number x) \<and> (\<exists>y \<in> set ys. \<not> is_number y) \<longrightarrow>
            computeEMD cn emd weight1 weight2 cost =
              Returned None
                \<lparr>err = Some (PyErr TypeError (Some ''w2 should be a sequence of numbers'')),
                 emd_calls = []\<rparr>)
       \<and> ((\<forall>x \<in> set xs. is_number x) \<and> (\<forall>y \<in> set ys. is_number y)
            \<and> sq_items cost = Some cs
            \<and> (\<exists>c \<in> set (take (length xs * length ys) cs). \<not> is_number c) \<longrightarrow>
            computeEMD cn emd weight1 weight2 cost =
              Returned None
                \<lparr>err = Some (PyErr TypeError (Some ''cost should be a sequence of numbers'')),
                 emd_calls = []\<rparr>)"
proof -
  have small: "int (length xs) < 2 ^ 31" "int (length ys) < 2 ^ 31"
    using assms(3,4) by simp_all
  have prod: "int (length xs) * int (length ys) < 2 ^ 31"
    using assms(5) by (rule product_bound)
  note unf = computeEMD_loops [OF assms(1,2) small prod]
  have bad: "fill_floats cn ob (int (length zs)) 0 [] e = NotNumber"
    if "sq_items ob = Some zs" and "\<exists>z \<in> set zs. \<not> is_number z" for ob zs e
    using fill_floats_has_not_number [of ob zs "length zs" cn e] that by simp
  have good: "fill_floats cn ob (int (length zs)) 0 [] e =
              Filled (map (stored cn) zs) (indicator_after cn e zs)"
    if "sq_items ob = Some zs" and "\<forall>z \<in> set zs. is_number z" for ob zs e
    using that by (rule fill_floats_all)
  show ?thesis
  proof (intro conjI impI)
    assume "\<exists>x \<in> set xs. \<not> is_number x"
    then have "fill_floats cn weight1 (int (length xs)) 0 [] None = NotNumber"
      using assms(1) by (intro bad)
    then show "computeEMD cn emd weight1 weight2 cost =
              Returned None
                \<lparr>err = Some (PyErr TypeError (Some ''w1 should be a sequence of numbers'')),
                 emd_calls = []\<rparr>"
      unfolding unf by (simp add: raise_def)
  next
    assume a: "(\<forall>x \<in> set xs. is_number x) \<and> (\<exists>y \<in> set ys. \<not> is_number y)"
    have l1: "fill_floats cn weight1 (int (length xs)) 0 [] None =
              Filled (map (stored cn) xs) (indicator_after cn None xs)"
      using assms(1) a by (intro good) blast+
    have l2: "fill_floats cn weight2 (int (length ys)) 0 [] e = NotNumber" for e
      using assms(2) a by (intro bad) blast+
    show "computeEMD cn emd weight1 weight2 cost =
              Returned None
                \<lparr>err = Some (PyErr TypeError (Some ''w2 should be a sequence of numbers'')),
                 emd_calls = []\<rparr>"
      unfolding unf by (simp add: l1 l2 raise_def)
  next
    assume a: "(\<forall>x \<in> set xs. is_number x) \<and> (\<forall>y \<in> set ys. is_number y)
            \<and> sq_items cost = Some cs
            \<and> (\<exists>c \<in> set (take (length xs * length ys) cs). \<not> is_number c)"
    have l1: "fill_floats cn weight1 (int (length xs)) 0 [] None =
              Filled (map (stored cn) xs) (indicator_after cn None xs)"
      using assms(1) a by (intro good) blast+
    have l2: "fill_floats cn weight2 (int (length ys)) 0 [] e =
              Filled (map (stored cn) ys) (indicator_after cn e ys)" for e
      using assms(2) a by (intro good) blast+
    have "fill_floats cn cost (int (length xs * length ys)) 0 [] e = NotNumber" for e
      using a by (intro fill_floats_has_not_number) blast+
    then have l3: "fill_floats cn cost (int (length xs) * int (length ys)) 0 [] e = NotNumber" for e
      by simp
    show "computeEMD cn emd weight1 weight2 cost =
              Returned None
                \<lparr>err = Some (PyErr TypeError (Some ''cost should be a sequence of numbers'')),
                 emd_calls = []\<rparr>"
      unfolding unf by (simp add: l1 l2 l3 raise_def)
  qed
qed

theorem not_number_raises_type_error_witness:
  "\<forall>(cn :: ('d, 'f) cnum) emd.
     computeEMD cn emd (PyList [PyInt 1, PyStr ''a'']) (PyList [PyNone]) (PyList []) =
       Returned None
         \<lparr>err = Some (PyErr TypeError (Some ''w1 should be a sequence of numbers'')),
          emd_calls = []\<rparr>
   \<and> computeEMD cn emd (PyList [PyInt 1]) (PyList [PyInt 2, PyNone]) (PyList [PyStr ''b'']) =
       Returned None
         \<lparr>err = Some (PyErr TypeError (Some ''w2 should be a sequence of numbers'')),
          emd_calls = []\<rparr>
   \<and> computeEMD cn emd (PyList [PyInt 1]) (PyList [PyInt 2, PyInt 3]) (PyList [PyInt 4, PyList []]) =
       Returned None
         \<lparr>err = Some (PyErr TypeError (Some ''cost should be a sequence of numbers'')),
          emd_calls = []\<rparr>"
proof (intro allI conjI)
  fix cn :: "('d, 'f) cnum" and emd :: "'f solver"
  show "computeEMD cn emd (PyList [PyInt 1, PyStr ''a'']) (PyList [PyNone]) (PyList []) =
       Returned None
         \<lparr>err = Some (PyErr TypeError (Some ''w1 should be a sequence of numbers'')),
          emd_calls = []\<rparr>"
    using not_number_raises_type_error [of "PyList [PyInt 1, PyStr ''a'']" "[PyInt 1, PyStr ''a'']"
        "PyList [PyNone]" "[PyNone]" cn emd "PyList []" "[]"]
    by (simp add: is_number_def)
  show "computeEMD cn emd (PyList [PyInt 1]) (PyList [PyInt 2, PyNone]) (PyList [PyStr ''b'']) =
       Returned None
         \<lparr>err = Some (PyErr TypeError (Some ''w2 should be a sequence of numbers'')),
          emd_calls = []\<rparr>"
    using not_number_raises_type_error [of "PyList [PyInt 1]" "[PyInt 1]"
        "PyList [PyInt 2, PyNone]" "[PyInt 2, PyNone]" cn emd "PyList [PyStr ''b'']" "[PyStr ''b'']"]
    by (simp add: is_number_def)
  show "computeEMD cn emd (PyList [PyInt 1]) (PyList [PyInt 2, PyInt 3]) (PyList [PyInt 4, PyList []]) =
       Returned None
         \<lparr>err = Some (PyErr TypeError (Some ''cost should be a sequence of numbers'')),
          emd_calls = []\<rparr>"
    using not_number_raises_type_error [of "PyList [PyInt 1]" "[PyInt 1]"
        "PyList [PyInt 2, PyInt 3]" "[PyInt 2, PyInt 3]" cn emd
        "PyList [PyInt 4, PyList []]" "[PyInt 4, PyList []]"]
    by (simp add: is_number_def)
qed

theorem not_number_counterexample:
  "\<forall>(cn :: ('d, 'f) cnum) emd.
     computeEMD cn emd (PyList [PyInt 1]) (PyList [PyInt 1]) (PyList [PyInt 5, PyStr ''x'']) =
     Returned
       (Some (PyFloat (float_to_double cn
          (emd \<lparr>n = 1, Weights = [stored cn (PyInt 1)]\<rparr>
               \<lparr>n = 1, Weights = [stored cn (PyInt 1)]\<rparr> [stored cn (PyInt 5)]))))
       \<lparr>err = indicator_after cn None [PyInt 1, PyInt 1, PyInt 5],
        emd_calls =
          [(\<lparr>n = 1, Weights = [stored cn (PyInt 1)]\<rparr>,
            \<lparr>n = 1, Weights = [stored cn (PyInt 1)]\<rparr>, [stored cn (PyInt 5)])]\<rparr>"
proof (intro allI)
  fix cn :: "('d, 'f) cnum" and emd :: "'f solver"
  show "computeEMD cn emd (PyList [PyInt 1]) (PyList [PyInt 1]) (PyList [PyInt 5, PyStr ''x'']) =
     Returned
       (Some (PyFloat (float_to_double cn
          (emd \<lparr>n = 1, Weights = [stored cn (PyInt 1)]\<rparr>
               \<lparr>n = 1, Weights = [stored cn (PyInt 1)]\<rparr> [stored cn (PyInt 5)]))))
       \<lparr>err = indicator_after cn None [PyInt 1, PyInt 1, PyInt 5],
        emd_calls =
          [(\<lparr>n = 1, Weights = [stored cn (PyInt 1)]\<rparr>,
            \<lparr>n = 1, Weights = [stored cn (PyInt 1)]\<rparr>, [stored cn (PyInt 5)])]\<rparr>"
    using computeEMD_numbers [of "PyList [PyInt 1]" "[PyInt 1]" "PyList [PyInt 1]" "[PyInt 1]"
        "PyList [PyInt 5, PyStr ''x'']" "[PyInt 5, PyStr ''x'']" cn emd]
    by (simp add: is_number_def)
qed

text \<open>
  Claim C5, at its failing input. On \<open>weight1 = [1]\<close>, \<open>weight2 = [1]\<close>, \<open>cost = []\<close>
  the call neither returns a float nor returns \<open>NULL\<close> with an error: the third loop
  gets \<open>NULL\<close> from \<open>PySequence_GetItem(cost, 0)\<close> and applies \<open>PyFloat_Check\<close> to it.
\<close>

theorem short_cost_null_dereference:
  "\<forall>(cn :: ('d, 'f) cnum) emd.
     computeEMD cn emd (PyList [PyInt 1]) (PyList [PyInt 1]) (PyList []) =
       NullDereference \<lparr>err = Some (PyErr IndexError None), emd_calls = []\<rparr>"
proof (intro allI)
  fix cn :: "('d, 'f) cnum" and emd :: "'f solver"
  have l1: "fill_floats cn (PyList [PyInt 1]) 1 0 [] e =
            Filled [stored cn (PyInt 1)] (indicator_after cn e [PyInt 1])" for e
    using fill_floats_all [of "PyList [PyInt 1]" "[PyInt 1]" cn e] by (simp add: is_number_def)
  have l3: "fill_floats cn (PyList []) 1 0 [] e = NullItem (PyErr IndexError None)" for e
    using fill_floats_past_end [of "PyList []" "[]" 0 1 cn "[]" e] by simp
  show "computeEMD cn emd (PyList [PyInt 1]) (PyList [PyInt 1]) (PyList []) =
       NullDereference \<lparr>err = Some (PyErr IndexError None), emd_calls = []\<rparr>"
    using computeEMD_loops [of "PyList [PyInt 1]" "[PyInt 1]" "PyList [PyInt 1]" "[PyInt 1]"
        cn emd "PyList []"]
    by (simp add: l1 l3)
qed

subsection \<open>Results of the call\<close>

text \<open>
  What remains of non-negativity on the binding's side: when every number converts
  without error to a non-negative \<open>double\<close>, the product of the lengths fits an
  \<open>int\<close>, the conversions keep non-negative values non-negative and the solver's
  result is the contract's distance on the arrays it is given, the returned float is
  greater than or equal to 0 and no error is pending.
\<close>

lemma result_nonneg:
  assumes "sq_items weight1 = Some xs" and "sq_items weight2 = Some ys"
    and "sq_items cost = Some cs"
    and "0 < length xs" and "0 < length ys"
    and "length cs = length xs * length ys" and "length xs * length ys < 2 ^ 31"
    and "\<forall>x \<in> set (xs @ ys @ cs). nonneg_number cn x"
    and "keeps_nonneg cn"
    and "meets_spec_at emd (map (stored cn) xs) (map (stored cn) ys) (map (stored cn) cs)"
  shows "\<exists>r. computeEMD cn emd weight1 weight2 cost =
            Returned (Some (PyFloat r))
              \<lparr>err = None,
               emd_calls =
                 [(\<lparr>n = int (length xs), Weights = map (stored cn) xs\<rparr>,
                   \<lparr>n = int (length ys), Weights = map (stored cn) ys\<rparr>,
                   map (stored cn) cs)]\<rparr>
          \<and> 0 \<le> r"
proof -
  let ?w1 = "map (stored cn) xs" and ?w2 = "map (stored cn) ys" and ?c = "map (stored cn) cs"
  let ?v = "emd \<lparr>n = int (length xs), Weights = ?w1\<rparr> \<lparr>n = int (length ys), Weights = ?w2\<rparr> ?c"
  have small: "length xs < 2 ^ 31" "length ys < 2 ^ 31"
    using factor_bound [OF assms(7,4,5)] by simp_all
  have nums: "\<forall>x \<in> set xs. is_number x" "\<forall>y \<in> set ys. is_number y"
    "\<forall>c \<in> set (take (length xs * length ys) cs). is_number c"
    using assms(6,8) by (simp_all add: nonneg_number_def)
  have ind: "indicator_after cn None (xs @ ys @ take (length xs * length ys) cs) = None"
    using assms(6,8) by (intro indicator_nonneg) simp
  have run: "computeEMD cn emd weight1 weight2 cost =
        Returned (Some (PyFloat (float_to_double cn ?v)))
          \<lparr>err = None,
           emd_calls =
             [(\<lparr>n = int (length xs), Weights = ?w1\<rparr>, \<lparr>n = int (length ys), Weights = ?w2\<rparr>, ?c)]\<rparr>"
    using computeEMD_numbers [OF assms(1,2,3) small assms(7) _ nums, of cn emd] assms(6) ind
    by simp
  have "is_emd ?w1 ?w2 ?c ?v"
    using assms(10) by (simp add: meets_spec_at_def)
  moreover have "\<forall>x \<in> set ?c. 0 \<le> x"
    using assms(8,9) by (auto intro: stored_nonneg)
  moreover have "length ?c = length ?w1 * length ?w2"
    using assms(6) by simp
  ultimately have "0 \<le> ?v" by (rule is_emd_nonneg)
  then have "0 \<le> float_to_double cn ?v"
    using assms(9) by (simp add: keeps_nonneg_def)
  then show ?thesis using run by blast
qed

lemma result_nonneg_example:
  "\<exists>r. computeEMD binary_num (\<lambda>s1 s2 c. 1) (PyList [PyInt 2]) (PyList [PyInt 5]) (PyTuple [PyFloat (1 / 2)]) =
            Returned (Some (PyFloat r))
              \<lparr>err = None,
               emd_calls = [(\<lparr>n = 1, Weights = [2]\<rparr>, \<lparr>n = 1, Weights = [5]\<rparr>, [1 / 2])]\<rparr>
          \<and> 0 \<le> r"
proof -
  have half: "stored binary_num (PyFloat (1 / 2)) = 1 / 2"
    by code_simp
  have st: "stored binary_num (PyInt 2) = 2" "stored binary_num (PyInt 5) = 5"
    using stored_exact [OF exact_binary_2] stored_exact [OF exact_binary_5] by simp_all
  have nn: "nonneg_number binary_num (PyInt 2)" "nonneg_number binary_num (PyInt 5)"
    "nonneg_number binary_num (PyFloat (1 / 2))"
    using exact_binary_2 exact_binary_5
    by (simp_all add: nonneg_number_def is_number_def exact_int_def)
  have spec: "meets_spec_at (\<lambda>s1 s2 c. 1) [2] [5] [1 / 2 :: rat]"
    by (simp add: meets_spec_at_def is_emd_1x1)
  show ?thesis
    using result_nonneg [of "PyList [PyInt 2]" "[PyInt 2]" "PyList [PyInt 5]" "[PyInt 5]"
        "PyTuple [PyFloat (1 / 2)]" "[PyFloat (1 / 2)]" binary_num "\<lambda>s1 s2 c. 1"]
      keeps_nonneg_binary nn spec
    by (simp add: st half)
qed

lemma failed_conversion_stored:
  assumes "long_as_double cn k = None"
    and "long_as_double cn 1 = Some d1" and "long_as_double cn 5 = Some d5"
  shows "computeEMD cn emd (PyList [PyInt k]) (PyList [PyInt 1]) (PyList [PyInt 5]) =
       Returned
         (Some (PyFloat (float_to_double cn
            (emd \<lparr>n = 1, Weights = [double_to_float cn (minus_one cn)]\<rparr>
                 \<lparr>n = 1, Weights = [double_to_float cn d1]\<rparr> [double_to_float cn d5]))))
         \<lparr>err = Some (PyErr OverflowError None),
          emd_calls =
            [(\<lparr>n = 1, Weights = [double_to_float cn (minus_one cn)]\<rparr>,
              \<lparr>n = 1, Weights = [double_to_float cn d1]\<rparr>, [double_to_float cn d5])]\<rparr>"
  using computeEMD_numbers [of "PyList [PyInt k]" "[PyInt k]" "PyList [PyInt 1]" "[PyInt 1]"
      "PyList [PyInt 5]" "[PyInt 5]" cn emd] assms
  by (simp add: is_number_def stored_def)

text \<open>
  Claim C6, at its failing input. \<open>weights1 = [10^400]\<close>, \<open>weights2 = [1]\<close>,
  \<open>cost = [5]\<close> is a valid input: every weight and cost is a non-negative number.
  \<open>PyFloat_AsDouble\<close> fails on the first weight (it is too large for a \<open>double\<close>)
  and returns -1.0; line 63 stores that value without testing for the error. The
  solver is called with the negative weight -1, and the call returns a float with
  the \<open>OverflowError\<close> still pending: no non-negative result is produced.
\<close>

theorem unconverted_weight_reaches_solver:
  "\<forall>emd.
     computeEMD binary_num emd (PyList [PyInt (10 ^ 400)]) (PyList [PyInt 1]) (PyList [PyInt 5]) =
       Returned
         (Some (PyFloat (emd \<lparr>n = 1, Weights = [- 1]\<rparr> \<lparr>n = 1, Weights = [1]\<rparr> [5])))
         \<lparr>err = Some (PyErr OverflowError None),
          emd_calls = [(\<lparr>n = 1, Weights = [- 1]\<rparr>, \<lparr>n = 1, Weights = [1]\<rparr>, [5])]\<rparr>"
proof
  fix emd :: "rat solver"
  have big: "long_as_double binary_num (10 ^ 400) = None"
    by (simp add: binary_num_def)
  have small: "long_as_double binary_num 1 = Some 1" "long_as_double binary_num 5 = Some 5"
    using exact_binary_1 exact_binary_5 by (simp_all add: exact_int_def)
  have "round_binary 24 (- 1) = - 1"
    by code_simp
  then have m: "double_to_float binary_num (minus_one binary_num) = - 1"
    by (simp add: binary_num_def)
  have f: "double_to_float binary_num 1 = 1" "double_to_float binary_num 5 = 5"
    using exact_binary_1 exact_binary_5 by (simp_all add: exact_int_def)
  have w: "float_to_double binary_num v = v" for v
    by (simp add: binary_num_def)
  show "computeEMD binary_num emd (PyList [PyInt (10 ^ 400)]) (PyList [PyInt 1]) (PyList [PyInt 5]) =
       Returned
         (Some (PyFloat (emd \<lparr>n = 1, Weights = [- 1]\<rparr> \<lparr>n = 1, Weights = [1]\<rparr> [5])))
         \<lparr>err = Some (PyErr OverflowError None),
          emd_calls = [(\<lparr>n = 1, Weights = [- 1]\<rparr>, \<lparr>n = 1, Weights = [1]\<rparr>, [5])]\<rparr>"
    unfolding failed_conversion_stored [OF big small] m f w ..
qed

text \<open>
  Claim C7. On \<open>weights1 = [1]\<close>, \<open>weights2 = [1]\<close>, \<open>cost = [5]\<close>, with conversions
  that keep the integers 1 and 5 and a solver that returns the spec's distance on
  the arrays it is given, \<open>computeEMD\<close> returns the Python float 5.
\<close>

theorem scenario_single_bin:
  assumes "exact_int cn 1" and "exact_int cn 5"
    and "meets_spec_at emd [1] [1] [5]"
  shows "computeEMD cn emd (PyList [PyInt 1]) (PyList [PyInt 1]) (PyList [PyInt 5]) =
           Returned (Some (PyFloat 5))
             \<lparr>err = None,
              emd_calls = [(\<lparr>n = 1, Weights = [1]\<rparr>, \<lparr>n = 1, Weights = [1]\<rparr>, [5])]\<rparr>"
proof -
  have v: "emd \<lparr>n = 1, Weights = [1]\<rparr> \<lparr>n = 1, Weights = [1]\<rparr> [5] = 5"
    using assms(3) by (simp add: meets_spec_at_def is_emd_1x1)
  have five: "float_to_double cn 5 = 5"
    using assms(2) by (simp add: exact_int_def)
  have conv: "long_as_double cn 1 = Some 1" "long_as_double cn 5 = Some 5"
    using assms(1,2) by (simp_all add: exact_int_def)
  have st: "stored cn (PyInt 1) = 1" "stored cn (PyInt 5) = 5"
    using stored_exact [OF assms(1)] stored_exact [OF assms(2)] by simp_all
  show ?thesis
    using computeEMD_numbers [of "PyList [PyInt 1]" "[PyInt 1]" "PyList [PyInt 1]" "[PyInt 1]"
        "PyList [PyInt 5]" "[PyInt 5]" cn emd]
    by (simp add: is_number_def v five conv st)
qed

theorem scenario_single_bin_witness:
  "computeEMD binary_num (\<lambda>s1 s2 c. 5) (PyList [PyInt 1]) (PyList [PyInt 1]) (PyList [PyInt 5]) =
           Returned (Some (PyFloat 5))
             \<lparr>err = None,
              emd_calls = [(\<lparr>n = 1, Weights = [1]\<rparr>, \<lparr>n = 1, Weights = [1]\<rparr>, [5])]\<rparr>"
proof -
  have spec: "meets_spec_at (\<lambda>s1 s2 c. 5) [1] [1] [5 :: rat]"
    by (simp add: meets_spec_at_def is_emd_1x1)
  show ?thesis
    using exact_binary_1 exact_binary_5 spec by (rule scenario_single_bin)
qed

text \<open>
  Claim C8. On \<open>weights1 = [2, 0]\<close>, \<open>weights2 = [0, 2]\<close>, \<open>cost = [0, 1, 1, 0]\<close>, with
  conversions that keep the integers 0, 1 and 2 and a solver that returns the spec's
  distance on the arrays it is given, \<open>computeEMD\<close> returns the Python float 2: the
  only feasible flow moves both units across the cell of cost 1.
\<close>

theorem scenario_cross_matching:
  assumes "exact_int cn 0" and "exact_int cn 1" and "exact_int cn 2"
    and "meets_spec_at emd [2, 0] [0, 2] [0, 1, 1, 0]"
  shows "computeEMD cn emd (PyList [PyInt 2, PyInt 0]) (PyList [PyInt 0, PyInt 2])
           (PyList [PyInt 0, PyInt 1, PyInt 1, PyInt 0]) =
           Returned (Some (PyFloat 2))
             \<lparr>err = None,
              emd_calls =
                [(\<lparr>n = 2, Weights = [2, 0]\<rparr>, \<lparr>n = 2, Weights = [0, 2]\<rparr>, [0, 1, 1, 0])]\<rparr>"
proof -
  have v: "emd \<lparr>n = 2, Weights = [2, 0]\<rparr> \<lparr>n = 2, Weights = [0, 2]\<rparr> [0, 1, 1, 0] = 2"
    using assms(4) by (simp add: meets_spec_at_def is_emd_cross)
  have two: "float_to_double cn 2 = 2"
    using assms(3) by (simp add: exact_int_def)
  have conv: "long_as_double cn 0 = Some 0" "long_as_double cn 1 = Some 1"
    "long_as_double cn 2 = Some 2"
    using assms(1,2,3) by (simp_all add: exact_int_def)
  have st: "stored cn (PyInt 0) = 0" "stored cn (PyInt 1) = 1" "stored cn (PyInt 2) = 2"
    using stored_exact [OF assms(1)] stored_exact [OF assms(2)] stored_exact [OF assms(3)]
    by simp_all
  show ?thesis
    using computeEMD_numbers [of "PyList [PyInt 2, PyInt 0]" "[PyInt 2, PyInt 0]"
        "PyList [PyInt 0, PyInt 2]" "[PyInt 0, PyInt 2]"
        "PyList [PyInt 0, PyInt 1, PyInt 1, PyInt 0]" "[PyInt 0, PyInt 1, PyInt 1, PyInt 0]" cn emd]
    by (simp add: is_number_def v two conv st)
qed

theorem scenario_cross_matching_witness:
  "computeEMD binary_num (\<lambda>s1 s2 c. 2) (PyList [PyInt 2, PyInt 0]) (PyList [PyInt 0, PyInt 2])
           (PyList [PyInt 0, PyInt 1, PyInt 1, PyInt 0]) =
           Returned (Some (PyFloat 2))
             \<lparr>err = None,
              emd_calls =
                [(\<lparr>n = 2, Weights = [2, 0]\<rparr>, \<lparr>n = 2, Weights = [0, 2]\<rparr>, [0, 1, 1, 0])]\<rparr>"
proof -
  have spec: "meets_spec_at (\<lambda>s1 s2 c. 2) [2, 0] [0, 2] [0, 1, 1, 0 :: rat]"
    by (simp add: meets_spec_at_def is_emd_cross)
  show ?thesis
    using exact_binary_0 exact_binary_1 exact_binary_2 spec by (rule scenario_cross_matching)
qed

subsection \<open>The vestigial length comparisons and the precision\<close>

text \<open>
  Claim C9, as amended. Lines 42-50 compare the \<open>Py_ssize_t\<close> result of
  \<open>PySequence_Size\<close> with the \<open>int\<close> it was stored into. For two sequences (of fewer
  than \<open>2^63\<close> elements, as every Python sequence has) the call ends in the branch
  "feature1 and weight1 must be the same" exactly when \<open>weight1\<close> has \<open>2^31\<close> or more
  elements, and in the branch "feature2 and weight2 must be the same" exactly when
  \<open>weight1\<close> has fewer and \<open>weight2\<close> has \<open>2^31\<close> or more. Below \<open>2^31\<close> elements
  neither branch is taken.
\<close>

theorem size_check_fails_iff_truncated:
  assumes "sq_items weight1 = Some xs" and "sq_items weight2 = Some ys"
    and "int (length xs) < 2 ^ 63" and "int (length ys) < 2 ^ 63"
  shows "((computeEMD cn emd weight1 weight2 cost
            = raise TypeError ''feature1 and weight1 must be the same'')
          = (2 ^ 31 \<le> int (length xs)))
       \<and> ((computeEMD cn emd weight1 weight2 cost
            = raise TypeError ''feature2 and weight2 must be the same'')
          = (int (length xs) < 2 ^ 31 \<and> 2 ^ 31 \<le> int (length ys)))"
proof (cases "int (length xs) < 2 ^ 31")
  case False
  then have big: "2 ^ 31 \<le> int (length xs)" by simp
  have "computeEMD cn emd weight1 weight2 cost
          = raise TypeError ''feature1 and weight1 must be the same''"
    using assms(1,2) big assms(3) by (rule computeEMD_size1_fails)
  then show ?thesis using False by (simp add: raise_def)
next
  case small1: True
  show ?thesis
  proof (cases "int (length ys) < 2 ^ 31")
    case False
    then have big: "2 ^ 31 \<le> int (length ys)" by simp
    have "computeEMD cn emd weight1 weight2 cost
            = raise TypeError ''feature2 and weight2 must be the same''"
      using assms(1,2) small1 big assms(4) by (rule computeEMD_size2_fails)
    then show ?thesis using small1 False by (simp add: raise_def)
  next
    case True
    show ?thesis
      using computeEMD_sizes_pass [OF assms(1,2) small1 True, of cn emd cost] small1 True
      by simp
  qed
qed

theorem size_check_fails_iff_truncated_witness:
  "\<forall>(cn :: ('d, 'f) cnum) emd.
     computeEMD cn emd (PyList [PyInt 1, PyInt 2]) (PyTuple [PyInt 3]) (PyList [PyInt 5, PyInt 6])
       \<noteq> raise TypeError ''feature1 and weight1 must be the same''
   \<and> computeEMD cn emd (PyList [PyInt 1, PyInt 2]) (PyTuple [PyInt 3]) (PyList [PyInt 5, PyInt 6])
       \<noteq> raise TypeError ''feature2 and weight2 must be the same''"
proof (intro allI)
  fix cn :: "('d, 'f) cnum" and emd :: "'f solver"
  show "computeEMD cn emd (PyList [PyInt 1, PyInt 2]) (PyTuple [PyInt 3]) (PyList [PyInt 5, PyInt 6])
       \<noteq> raise TypeError ''feature1 and weight1 must be the same''
   \<and> computeEMD cn emd (PyList [PyInt 1, PyInt 2]) (PyTuple [PyInt 3]) (PyList [PyInt 5, PyInt 6])
       \<noteq> raise TypeError ''feature2 and weight2 must be the same''"
    using size_check_fails_iff_truncated [of "PyList [PyInt 1, PyInt 2]" "[PyInt 1, PyInt 2]"
        "PyTuple [PyInt 3]" "[PyInt 3]" cn emd "PyList [PyInt 5, PyInt 6]"]
    by simp
qed

theorem size_check_fails_counterexample:
  "\<forall>(cn :: ('d, 'f) cnum) emd.
     computeEMD cn emd (PyList (replicate (2 ^ 31) (PyInt 0))) (PyList []) (PyList []) =
       Returned None
         \<lparr>err = Some (PyErr TypeError (Some ''feature1 and weight1 must be the same'')),
          emd_calls = []\<rparr>"
proof (intro allI)
  fix cn :: "('d, 'f) cnum" and emd :: "'f solver"
  have "computeEMD cn emd (PyList (replicate (2 ^ 31) (PyInt 0))) (PyList []) (PyList []) =
        raise TypeError ''feature1 and weight1 must be the same''"
    by (rule computeEMD_size1_fails [where xs = "replicate (2 ^ 31) (PyInt 0)" and ys = "[]"])
      simp_all
  then show "computeEMD cn emd (PyList (replicate (2 ^ 31) (PyInt 0))) (PyList []) (PyList []) =
       Returned None
         \<lparr>err = Some (PyErr TypeError (Some ''feature1 and weight1 must be the same'')),
          emd_calls = []\<rparr>"
    by (simp add: raise_def)
qed

text \<open>
  Claim C10. Every element that is read reaches the solver narrowed to \<open>float\<close>:
  the arrays handed to \<open>emd\<close> hold, for each element, the \<open>float\<close> conversion of the
  \<open>double\<close> that \<open>PyFloat_AsDouble\<close> gave for it (of the value itself for a Python
  float, of the converted integer for a Python integer); the solver's result is a
  \<open>float\<close>, and only the returned object holds its promotion to \<open>double\<close>. So a
  Python float that is not the promotion of any \<open>float\<close> does not reach the solver
  unchanged.
\<close>

theorem elements_narrowed_to_float:
  assumes "sq_items weight1 = Some xs" and "sq_items weight2 = Some ys"
    and "sq_items cost = Some cs"
    and "length xs < 2 ^ 31" and "length ys < 2 ^ 31" and "length xs * length ys < 2 ^ 31"
    and "length xs * length ys \<le> length cs"
    and "\<forall>x \<in> set xs. is_number x" and "\<forall>y \<in> set ys. is_number y"
    and "\<forall>c \<in> set (take (length xs * length ys) cs). is_number c"
  shows "(\<exists>w. computeEMD cn emd weight1 weight2 cost =
            Returned
              (Some (PyFloat (float_to_double cn
                 (emd \<lparr>n = int (length xs), Weights = map (stored cn) xs\<rparr>
                      \<lparr>n = int (length ys), Weights = map (stored cn) ys\<rparr>
                      (map (stored cn) (take (length xs * length ys) cs)))))) w
          \<and> emd_calls w =
              [(\<lparr>n = int (length xs), Weights = map (stored cn) xs\<rparr>,
                \<lparr>n = int (length ys), Weights = map (stored cn) ys\<rparr>,
                map (stored cn) (take (length xs * length ys) cs))])
       \<and> (\<forall>d. stored cn (PyFloat d) = double_to_float cn d)
       \<and> (\<forall>k d. long_as_double cn k = Some d \<longrightarrow> stored cn (PyInt k) = double_to_float cn d)
       \<and> (\<forall>d. d \<notin> range (float_to_double cn) \<longrightarrow> float_to_double cn (stored cn (PyFloat d)) \<noteq> d)"
proof (intro conjI allI impI)
  show "\<exists>w. computeEMD cn emd weight1 weight2 cost =
            Returned
              (Some (PyFloat (float_to_double cn
                 (emd \<lparr>n = int (length xs), Weights = map (stored cn) xs\<rparr>
                      \<lparr>n = int (length ys), Weights = map (stored cn) ys\<rparr>
                      (map (stored cn) (take (length xs * length ys) cs)))))) w
          \<and> emd_calls w =
              [(\<lparr>n = int (length xs), Weights = map (stored cn) xs\<rparr>,
                \<lparr>n = int (length ys), Weights = map (stored cn) ys\<rparr>,
                map (stored cn) (take (length xs * length ys) cs))]"
    unfolding computeEMD_numbers [OF assms] by simp
next
  fix d show "stored cn (PyFloat d) = double_to_float cn d"
    by (simp add: stored_def)
next
  fix k d assume "long_as_double cn k = Some d"
  then show "stored cn (PyInt k) = double_to_float cn d"
    by (simp add: stored_def)
next
  fix d assume "d \<notin> range (float_to_double cn)"
  then show "float_to_double cn (stored cn (PyFloat d)) \<noteq> d"
    by (metis rangeI)
qed

theorem elements_narrowed_to_float_witness:
  "\<forall>emd. \<exists>w.
     computeEMD binary_num emd (PyList [PyFloat (1073741825 / 1073741824)]) (PyList [PyFloat 1])
       (PyList [PyFloat (3602879701896397 / 36028797018963968)]) =
       Returned
         (Some (PyFloat
            (emd \<lparr>n = 1, Weights = [1]\<rparr> \<lparr>n = 1, Weights = [1]\<rparr> [13421773 / 134217728]))) w
     \<and> emd_calls w =
         [(\<lparr>n = 1, Weights = [1]\<rparr>, \<lparr>n = 1, Weights = [1]\<rparr>, [13421773 / 134217728])]"
proof
  fix emd :: "rat solver"
  have id: "float_to_double binary_num v = v" for v
    by (simp add: binary_num_def)
  show "\<exists>w.
     computeEMD binary_num emd (PyList [PyFloat (1073741825 / 1073741824)]) (PyList [PyFloat 1])
       (PyList [PyFloat (3602879701896397 / 36028797018963968)]) =
       Returned
         (Some (PyFloat
            (emd \<lparr>n = 1, Weights = [1]\<rparr> \<lparr>n = 1, Weights = [1]\<rparr> [13421773 / 134217728]))) w
     \<and> emd_calls w =
         [(\<lparr>n = 1, Weights = [1]\<rparr>, \<lparr>n = 1, Weights = [1]\<rparr>, [13421773 / 134217728])]"
    using elements_narrowed_to_float [of "PyList [PyFloat (1073741825 / 1073741824)]"
        "[PyFloat (1073741825 / 1073741824)]" "PyList [PyFloat 1]" "[PyFloat 1]"
        "PyList [PyFloat (3602879701896397 / 36028797018963968)]"
        "[PyFloat (3602879701896397 / 36028797018963968)]" binary_num emd]
    by (simp add: is_number_def stored_binary_examples id)
qed

end
